theory Spec2Isabelle
  imports
    Complex_Main
    "HOL-Library.Char_ord"
    "HOL-Library.List_Lexorder"
    "HOL-Library.Product_Lexorder"
    "HOL-Library.Multiset"
begin

section \<open>The table\<close>

text \<open>
  The script \<^verbatim>\<open>Covid.py\<close> works on one pandas table, the WHO file
  \<^verbatim>\<open>WHO-COVID-19-global-data.csv\<close>. A row has the eight fields the script names.
  A missing cell (pandas NaN, NaT) is \<open>None\<close> for the text and number fields and
  \<open>NaT\<close> for the date field. Numbers are rationals: the script's floating point
  arithmetic is read as exact arithmetic.

  The date field holds text when the file has just been read (\<open>Raw\<close>) and a time stamp
  once \<^verbatim>\<open>pd.to_datetime\<close> has converted it (\<open>Ts\<close>). A time stamp is year, month,
  day; the WHO file has no time of day.
\<close>

type_synonym timestamp = "nat \<times> nat \<times> nat"

datatype date_cell = NaT | Raw string | Ts timestamp

record row =
  Date_reported :: date_cell
  Country_code :: "string option"
  Country :: "string option"
  WHO_region :: "string option"
  new_cases :: "rat option"
  cumulative_cases :: "rat option"
  new_deaths :: "rat option"
  cumulative_deaths :: "rat option"

text \<open>
  \<open>columns\<close> is \<^verbatim>\<open>df.columns\<close>: the names of the columns the table has. A field of
  a row whose column is not in \<open>columns\<close> is never read: every access checks the name
  first and raises \<^verbatim>\<open>KeyError\<close> as pandas does.
\<close>

record frame =
  columns :: "string list"
  rows :: "row list"

text \<open>The four numeric columns, in the order of the script's cleaning loop (line 43).\<close>

datatype numcol = Cumulative_cases | Cumulative_deaths | New_cases | New_deaths

definition numeric_columns :: "numcol list" where
  "numeric_columns = [Cumulative_cases, Cumulative_deaths, New_cases, New_deaths]"

fun name :: "numcol \<Rightarrow> string" where
  "name Cumulative_cases = ''Cumulative_cases''"
| "name Cumulative_deaths = ''Cumulative_deaths''"
| "name New_cases = ''New_cases''"
| "name New_deaths = ''New_deaths''"

fun get :: "numcol \<Rightarrow> row \<Rightarrow> rat option" where
  "get Cumulative_cases r = cumulative_cases r"
| "get Cumulative_deaths r = cumulative_deaths r"
| "get New_cases r = new_cases r"
| "get New_deaths r = new_deaths r"

fun put :: "numcol \<Rightarrow> rat option \<Rightarrow> row \<Rightarrow> row" where
  "put Cumulative_cases v r = r\<lparr>cumulative_cases := v\<rparr>"
| "put Cumulative_deaths v r = r\<lparr>cumulative_deaths := v\<rparr>"
| "put New_cases v r = r\<lparr>new_cases := v\<rparr>"
| "put New_deaths v r = r\<lparr>new_deaths := v\<rparr>"

text \<open>
  The exceptions the script can meet. All but \<open>KeyboardInterrupt\<close> are subclasses of
  Python's \<^verbatim>\<open>Exception\<close>; the first three are subclasses of
  \<^verbatim>\<open>requests.exceptions.RequestException\<close>.
\<close>

datatype exn =
    ConnectionError
  | Timeout
  | HTTPError
  | NameError string
  | KeyError "string list"
  | ValueError
  | KeyboardInterrupt

fun is_RequestException :: "exn \<Rightarrow> bool" where
  "is_RequestException ConnectionError = True"
| "is_RequestException Timeout = True"
| "is_RequestException HTTPError = True"
| "is_RequestException _ = False"

fun is_Exception :: "exn \<Rightarrow> bool" where
  "is_Exception KeyboardInterrupt = False"
| "is_Exception _ = True"

section \<open>Cleaning (lines 40 to 46)\<close>

subsection \<open>Line 40: the date column becomes a time stamp column\<close>

text \<open>
  \<^verbatim>\<open>pd.to_datetime\<close> is a library function. What it makes of one text is the
  parameter \<open>parse\<close>: the text is a date, or one of the texts pandas reads as "no time",
  or it cannot be parsed, and then the call raises (\<^verbatim>\<open>errors='raise'\<close> is the
  default). Every theorem below holds for any \<open>parse\<close>.
\<close>

datatype parsed = Unparseable | Not_a_time | Parsed timestamp

fun to_datetime_cell :: "(string \<Rightarrow> parsed) \<Rightarrow> date_cell \<Rightarrow> exn + date_cell" where
  "to_datetime_cell parse NaT = Inr NaT"
| "to_datetime_cell parse (Ts t) = Inr (Ts t)"
| "to_datetime_cell parse (Raw s) =
     (case parse s of
        Unparseable \<Rightarrow> Inl ValueError
      | Not_a_time \<Rightarrow> Inr NaT
      | Parsed t \<Rightarrow> Inr (Ts t))"

fun to_datetime :: "(string \<Rightarrow> parsed) \<Rightarrow> date_cell list \<Rightarrow> exn + date_cell list" where
  "to_datetime parse [] = Inr []"
| "to_datetime parse (c # cs) =
     (case to_datetime_cell parse c of
        Inl e \<Rightarrow> Inl e
      | Inr d \<Rightarrow>
         (case to_datetime parse cs of
            Inl e \<Rightarrow> Inl e
          | Inr ds \<Rightarrow> Inr (d # ds)))"

definition set_dates :: "date_cell list \<Rightarrow> row list \<Rightarrow> row list" where
  "set_dates ds rs = map (\<lambda>(d, r). r\<lparr>Date_reported := d\<rparr>) (zip ds rs)"

text \<open>\<^verbatim>\<open>df['Date_reported'] = pd.to_datetime(df['Date_reported'])\<close>\<close>

definition convert_dates :: "(string \<Rightarrow> parsed) \<Rightarrow> frame \<Rightarrow> exn + frame" where
  "convert_dates parse df =
     (if ''Date_reported'' \<notin> set (columns df) then Inl (KeyError [''Date_reported''])
      else case to_datetime parse (map Date_reported (rows df)) of
             Inl e \<Rightarrow> Inl e
           | Inr ds \<Rightarrow> Inr (df\<lparr>rows := set_dates ds (rows df)\<rparr>))"

subsection \<open>Line 42: rows without date or country code are dropped\<close>

definition has_core :: "row \<Rightarrow> bool" where
  "has_core r \<longleftrightarrow> Date_reported r \<noteq> NaT \<and> Country_code r \<noteq> None"

text \<open>\<^verbatim>\<open>df = df.dropna(subset=['Date_reported', 'Country_code'])\<close>\<close>

definition dropna :: "frame \<Rightarrow> exn + frame" where
  "dropna df =
     (let missing = filter (\<lambda>c. c \<notin> set (columns df)) [''Date_reported'', ''Country_code'']
      in if missing \<noteq> [] then Inl (KeyError missing)
         else Inr (df\<lparr>rows := filter has_core (rows df)\<rparr>))"

subsection \<open>Lines 43 to 46: forward fill, then zero fill\<close>

text \<open>
  \<^verbatim>\<open>fillna(method='ffill')\<close> on one column: a missing cell takes the last valid
  value above it, in the row order of the table. \<open>prev\<close> is that value, \<open>None\<close> while
  there has been none.
\<close>

fun ffill :: "'a option \<Rightarrow> 'a option list \<Rightarrow> 'a option list" where
  "ffill prev [] = []"
| "ffill prev (None # xs) = prev # ffill prev xs"
| "ffill prev (Some v # xs) = Some v # ffill (Some v) xs"

definition fillna :: "'a \<Rightarrow> 'a option list \<Rightarrow> 'a option list" where
  "fillna v xs = map (\<lambda>x. case x of None \<Rightarrow> Some v | Some w \<Rightarrow> Some w) xs"

definition column :: "numcol \<Rightarrow> row list \<Rightarrow> rat option list" where
  "column c rs = map (get c) rs"

definition set_column :: "numcol \<Rightarrow> rat option list \<Rightarrow> row list \<Rightarrow> row list" where
  "set_column c vs rs = map (\<lambda>(v, r). put c v r) (zip vs rs)"

text \<open>
  The body of the loop for one column. The two fills are in place
  (\<^verbatim>\<open>inplace=True\<close> on \<^verbatim>\<open>df[column]\<close>): the model follows the pandas versions
  in which the script runs as its comments say, where the filled column is the table's
  own column.
\<close>

definition fill_column :: "numcol \<Rightarrow> frame \<Rightarrow> frame" where
  "fill_column c df =
     (if name c \<in> set (columns df) then
        let df1 = df\<lparr>rows := set_column c (ffill None (column c (rows df))) (rows df)\<rparr>
        in df1\<lparr>rows := set_column c (fillna 0 (column c (rows df1))) (rows df1)\<rparr>
      else df)"

definition fill_numeric :: "frame \<Rightarrow> frame" where
  "fill_numeric df = fold fill_column numeric_columns df"

subsection \<open>The cleaning stage\<close>

text \<open>
  Lines 40 to 46 together. The result is the table as the stage leaves it and the
  exception that ended it, if one did: line 40 replaces the date column before line 42
  can raise, so a failure of line 42 leaves the converted table behind.
\<close>

definition cleaning :: "(string \<Rightarrow> parsed) \<Rightarrow> frame \<Rightarrow> frame \<times> exn option" where
  "cleaning parse df =
     (case convert_dates parse df of
        Inl e \<Rightarrow> (df, Some e)
      | Inr df1 \<Rightarrow>
         (case dropna df1 of
            Inl e \<Rightarrow> (df1, Some e)
          | Inr df2 \<Rightarrow> (fill_numeric df2, None)))"

text \<open>What the two fills make of one column.\<close>

definition filled :: "numcol \<Rightarrow> row list \<Rightarrow> rat option list" where
  "filled c rs = fillna 0 (ffill None (column c rs))"


section \<open>Analysis (lines 63 to 75)\<close>

subsection \<open>Lines 63 and 91: the rows of 2025\<close>

text \<open>
  \<^verbatim>\<open>df['Date_reported'] >= '2025-01-01'\<close>, cell by cell. On a time stamp pandas reads
  the text on the right as the time stamp \<open>cutoff\<close>; a missing date compares false. On
  a column that is still text (line 40 did not complete) the comparison is Python's order
  of strings.
\<close>

definition cutoff :: timestamp where
  "cutoff = (2025, 1, 1)"

fun on_or_after :: "date_cell \<Rightarrow> bool" where
  "on_or_after NaT = False"
| "on_or_after (Ts t) = (cutoff \<le> t)"
| "on_or_after (Raw s) = (''2025-01-01'' \<le> s)"

definition recent :: "frame \<Rightarrow> exn + frame" where
  "recent df =
     (if ''Date_reported'' \<in> set (columns df)
      then Inr (df\<lparr>rows := filter (\<lambda>r. on_or_after (Date_reported r)) (rows df)\<rparr>)
      else Inl (KeyError [''Date_reported'']))"

subsection \<open>Aggregates of one column\<close>

text \<open>
  pandas aggregates skip missing cells; the mean of no value is NaN, here \<open>None\<close>.
  The sums and means of the model are exact. Those of the script are not: the sum of a
  column of 64-bit integers wraps where it overflows, and a mean is a floating point
  number.
\<close>

fun valid :: "'a option list \<Rightarrow> 'a list" where
  "valid [] = []"
| "valid (None # xs) = valid xs"
| "valid (Some v # xs) = v # valid xs"

definition mean :: "rat option list \<Rightarrow> rat option" where
  "mean xs = (let vs = valid xs in if vs = [] then None else Some (sum_list vs / of_nat (length vs)))"

definition total :: "rat option list \<Rightarrow> rat" where
  "total xs = sum_list (valid xs)"

text \<open>
  A percentile of a sorted list, by linear interpolation between the two nearest ranks,
  as \<^verbatim>\<open>describe\<close> computes its quartiles.
\<close>

definition percentile :: "rat \<Rightarrow> rat list \<Rightarrow> rat option" where
  "percentile q vs =
     (if vs = [] then None
      else let pos = q * of_nat (length vs - 1);
               lo = nat \<lfloor>pos\<rfloor>;
               frac = pos - of_nat lo
           in if lo + 1 < length vs then Some (vs ! lo + frac * (vs ! (lo + 1) - vs ! lo))
              else Some (vs ! lo))"

text \<open>
  One column of \<^verbatim>\<open>describe()\<close>. The script prints the standard deviation; \<open>var\<close> is
  its square (with \<open>n - 1\<close> in the denominator), which stays rational.
\<close>

record stats =
  count :: nat
  mean_value :: "rat option"
  var :: "rat option"
  minimum :: "rat option"
  q25 :: "rat option"
  q50 :: "rat option"
  q75 :: "rat option"
  maximum :: "rat option"

definition describe_column :: "rat option list \<Rightarrow> stats" where
  "describe_column xs =
     (let vs = sort (valid xs); n = length vs; m = sum_list vs / of_nat n
      in \<lparr>count = n,
          mean_value = (if n = 0 then None else Some m),
          var = (if n < 2 then None
                 else Some (sum_list (map (\<lambda>v. (v - m) * (v - m)) vs) / of_nat (n - 1))),
          minimum = percentile 0 vs,
          q25 = percentile (1 / 4) vs,
          q50 = percentile (1 / 2) vs,
          q75 = percentile (3 / 4) vs,
          maximum = percentile 1 vs\<rparr>)"

text \<open>
  Line 65: \<^verbatim>\<open>recent_df[['New_cases', 'New_deaths', 'Cumulative_cases',
  'Cumulative_deaths']].describe()\<close>. Selecting a column the table does not have raises
  \<^verbatim>\<open>KeyError\<close>.
\<close>

definition describe :: "frame \<Rightarrow> exn + (string \<times> stats) list" where
  "describe df =
     (let selected = [New_cases, New_deaths, Cumulative_cases, Cumulative_deaths];
          missing = filter (\<lambda>c. c \<notin> set (columns df)) (map name selected)
      in if missing \<noteq> [] then Inl (KeyError missing)
         else Inr (map (\<lambda>c. (name c, describe_column (column c (rows df)))) selected))"

subsection \<open>Grouping\<close>

text \<open>
  \<^verbatim>\<open>groupby(key)\<close>: one group for each value of the key, the groups in the order of
  their keys; a row whose key is missing is in no group (\<^verbatim>\<open>dropna=True\<close> is the
  default).
\<close>

definition group_keys :: "(row \<Rightarrow> string option) \<Rightarrow> row list \<Rightarrow> string list" where
  "group_keys key rs = sort (remdups (valid (map key rs)))"

definition groupby :: "(row \<Rightarrow> string option) \<Rightarrow> row list \<Rightarrow> (string \<times> row list) list" where
  "groupby key rs = map (\<lambda>k. (k, filter (\<lambda>r. key r = Some k) rs)) (group_keys key rs)"

definition group_mean :: "numcol \<Rightarrow> (string \<times> row list) list \<Rightarrow> (string \<times> rat option) list" where
  "group_mean c gs = map (\<lambda>(k, g). (k, mean (column c g))) gs"

definition group_mean_sum ::
  "numcol \<Rightarrow> (string \<times> row list) list \<Rightarrow> (string \<times> rat option \<times> rat) list" where
  "group_mean_sum c gs = map (\<lambda>(k, g). (k, mean (column c g), total (column c g))) gs"

text \<open>
  \<^verbatim>\<open>round(2)\<close>: to two decimals, a tie to the even neighbour. The model rounds
  the exact number. The script rounds the floating point number that stands for it, which
  can fall on the other side of a tie: a mean of \<open>23 / 40\<close> is printed as 0.57 by
  the script and is 0.58 here.
\<close>

definition round_half_even :: "rat \<Rightarrow> int" where
  "round_half_even x =
     (let f = \<lfloor>x\<rfloor>; d = x - of_int f
      in if d < 1 / 2 then f else if 1 / 2 < d then f + 1 else if even f then f else f + 1)"

definition round2 :: "rat \<Rightarrow> rat" where
  "round2 x = of_int (round_half_even (x * 100)) / 100"

text \<open>
  Line 69: \<^verbatim>\<open>recent_df.groupby('WHO_region')['New_cases'].agg(['mean', 'sum']).round(2)\<close>
\<close>

definition group_means :: "frame \<Rightarrow> exn + (string \<times> rat option \<times> rat) list" where
  "group_means df =
     (if ''WHO_region'' \<notin> set (columns df) then Inl (KeyError [''WHO_region''])
      else if name New_cases \<notin> set (columns df) then Inl (KeyError [name New_cases])
      else Inr (map (\<lambda>(k, m, s). (k, map_option round2 m, round2 s))
                  (group_mean_sum New_cases (groupby WHO_region (rows df)))))"

text \<open>
  \<^verbatim>\<open>sort_values(ascending=False)\<close>: the larger mean first, NaN last. pandas does not
  say in which order it leaves equal means; the model keeps them in the order of their
  keys. No theorem below depends on that choice.
\<close>

fun desc_key :: "string \<times> rat option \<Rightarrow> bool \<times> rat" where
  "desc_key (k, None) = (True, 0)"
| "desc_key (k, Some v) = (False, - v)"

definition sort_values_desc :: "(string \<times> rat option) list \<Rightarrow> (string \<times> rat option) list" where
  "sort_values_desc xs = sort_key desc_key xs"

text \<open>
  Line 74: \<^verbatim>\<open>recent_df.groupby('Country')['Cumulative_deaths'].mean()
  .sort_values(ascending=False).head(10)\<close>
\<close>

definition country_deaths :: "frame \<Rightarrow> exn + (string \<times> rat option) list" where
  "country_deaths df =
     (if ''Country'' \<notin> set (columns df) then Inl (KeyError [''Country''])
      else if name Cumulative_deaths \<notin> set (columns df) then Inl (KeyError [name Cumulative_deaths])
      else Inr (take 10 (sort_values_desc
                  (group_mean Cumulative_deaths (groupby Country (rows df))))))"

section \<open>The script\<close>

text \<open>
  What the script prints, one constructor for each \<^verbatim>\<open>print\<close> (or block of prints of
  fixed text), with the data it shows.
\<close>

datatype line =
    First_rows "row list"
  | Dataset_info "string list" nat
  | Missing_values "(string \<times> nat) list"
  | Dataset_cleaned nat
  | No_remaining_missing
  | Download_failed exn
  | Loading_error exn
  | Summary_header
  | Summary "(string \<times> stats) list"
  | Region_header
  | Region_table "(string \<times> rat option \<times> rat) list"
  | Country_header
  | Country_table "(string \<times> rat option) list"
  | Findings
  | Analysis_error exn
  | Saved_files
  | Visualization_error exn
  | Observations

text \<open>
  The state of a run: \<open>var_df\<close> is the module variable \<^verbatim>\<open>df\<close> (\<open>None\<close> while the name
  is not bound), \<open>out\<close> the console, \<open>files\<close> the images written, each with the rows it
  draws, \<open>rng\<close> the state of NumPy's global random generator, which the script never
  seeds (its coming draws), \<open>raised\<close> an exception that no handler has caught: it ends
  the run.
\<close>

record state =
  var_df :: "frame option"
  out :: "line list"
  files :: "(string \<times> row list) list"
  rng :: "nat list"
  raised :: "exn option"

definition print :: "line list \<Rightarrow> state \<Rightarrow> state" where
  "print ls s = s\<lparr>out := out s @ ls\<rparr>"

subsection \<open>Task 1 (lines 19 to 58)\<close>

text \<open>\<^verbatim>\<open>df.isnull()\<close> on one cell, by the name of its column.\<close>

definition isnull :: "string \<Rightarrow> row \<Rightarrow> bool" where
  "isnull c r =
     (if c = ''Date_reported'' then Date_reported r = NaT
      else if c = ''Country_code'' then Country_code r = None
      else if c = ''Country'' then Country r = None
      else if c = ''WHO_region'' then WHO_region r = None
      else if c = name New_cases then get New_cases r = None
      else if c = name Cumulative_cases then get Cumulative_cases r = None
      else if c = name New_deaths then get New_deaths r = None
      else if c = name Cumulative_deaths then get Cumulative_deaths r = None
      else False)"

definition missing_counts :: "frame \<Rightarrow> (string \<times> nat) list" where
  "missing_counts d = map (\<lambda>c. (c, length (filter (isnull c) (rows d)))) (columns d)"

text \<open>
  The two handlers of lines 53 to 58. An exception that is neither a
  \<^verbatim>\<open>RequestException\<close> nor an \<^verbatim>\<open>Exception\<close> stays raised.
\<close>

definition except_task1 :: "state \<Rightarrow> state" where
  "except_task1 s =
     (case raised s of
        None \<Rightarrow> s
      | Some e \<Rightarrow>
          if is_RequestException e then print [Download_failed e] (s\<lparr>raised := None\<rparr>)
          else if is_Exception e then print [Loading_error e] (s\<lparr>raised := None\<rparr>)
          else s)"

text \<open>
  The body of the first \<^verbatim>\<open>try\<close>. \<open>response\<close> is what lines 22 to 24 come to: they
  raise, or they bind \<^verbatim>\<open>df\<close> to the table read from the response.
\<close>

definition task1_body :: "(string \<Rightarrow> parsed) \<Rightarrow> exn + frame \<Rightarrow> state \<Rightarrow> state" where
  "task1_body parse response s =
     (case response of
        Inl e \<Rightarrow> s\<lparr>raised := Some e\<rparr>
      | Inr raw \<Rightarrow>
          let s1 = print [First_rows (take 5 (rows raw)),
                          Dataset_info (columns raw) (length (rows raw)),
                          Missing_values (missing_counts raw)] (s\<lparr>var_df := Some raw\<rparr>)
          in (case cleaning parse raw of
                (d, Some e) \<Rightarrow> s1\<lparr>var_df := Some d, raised := Some e\<rparr>
              | (d, None) \<Rightarrow>
                  let s2 = print [Dataset_cleaned (length (rows raw) - length (rows d))]
                             (s1\<lparr>var_df := Some d\<rparr>)
                  in if \<forall>c\<in>set (columns d). \<forall>r\<in>set (rows d). \<not> isnull c r
                     then print [No_remaining_missing] s2 else s2))"

definition task1 :: "(string \<Rightarrow> parsed) \<Rightarrow> exn + frame \<Rightarrow> state \<Rightarrow> state" where
  "task1 parse response s = except_task1 (task1_body parse response s)"

subsection \<open>Task 2 (lines 61 to 86)\<close>

text \<open>
  The handler of the second and of the third \<^verbatim>\<open>try\<close>: \<^verbatim>\<open>except Exception\<close>.
\<close>

definition except_Exception :: "(exn \<Rightarrow> line) \<Rightarrow> state \<Rightarrow> state" where
  "except_Exception message s =
     (case raised s of
        None \<Rightarrow> s
      | Some e \<Rightarrow> if is_Exception e then print [message e] (s\<lparr>raised := None\<rparr>) else s)"

text \<open>
  Lines 63 to 83 on a table: the lines printed and the exception that ended them, if one
  did. A header is printed before the table under it is computed.

  The numeric columns of the model hold numbers. A file with a header and no row of data
  is read by pandas as a table whose columns have no numeric type, and on that table
  line 75 raises \<^verbatim>\<open>TypeError\<close>, which the guard of line 85 reports in place of the
  country table and the findings; that one input is not covered by \<open>analysis\<close>.
\<close>

definition analysis :: "frame \<Rightarrow> line list \<times> exn option" where
  "analysis d =
     (case recent d of
        Inl e \<Rightarrow> ([], Some e)
      | Inr recent_df \<Rightarrow>
         (case describe recent_df of
            Inl e \<Rightarrow> ([Summary_header], Some e)
          | Inr summary \<Rightarrow>
             (case group_means recent_df of
                Inl e \<Rightarrow> ([Summary_header, Summary summary, Region_header], Some e)
              | Inr means \<Rightarrow>
                 (case country_deaths recent_df of
                    Inl e \<Rightarrow>
                      ([Summary_header, Summary summary, Region_header, Region_table means,
                        Country_header], Some e)
                  | Inr top10 \<Rightarrow>
                      ([Summary_header, Summary summary, Region_header, Region_table means,
                        Country_header,
                        Country_table (map (\<lambda>(k, m). (k, map_option round2 m)) top10),
                        Findings], None)))))"

definition task2_body :: "state \<Rightarrow> state" where
  "task2_body s =
     (case var_df s of
        None \<Rightarrow> s\<lparr>raised := Some (NameError ''df'')\<rparr>
      | Some d \<Rightarrow> (let (ls, e) = analysis d in (print ls s)\<lparr>raised := e\<rparr>))"

definition task2 :: "state \<Rightarrow> state" where
  "task2 s = (if raised s \<noteq> None then s else except_Exception Analysis_error (task2_body s))"

subsection \<open>Task 3 (lines 89 to 150)\<close>

text \<open>
  \<^verbatim>\<open>sample(n)\<close> draws \<open>n\<close> rows without replacement. Which rows it draws is decided
  by the random generator: each draw picks one of the rows that are left. NumPy's own
  procedure is not part of the script; the model keeps that the sample is a function of
  the generator's state and of the table.
\<close>

fun sample :: "nat \<Rightarrow> 'a list \<Rightarrow> nat list \<Rightarrow> 'a list \<times> nat list" where
  "sample 0 xs g = ([], g)"
| "sample (Suc n) [] g = ([], g)"
| "sample (Suc n) (x # xs) g =
     (let i = (case g of [] \<Rightarrow> 0 | d # _ \<Rightarrow> d mod length (x # xs));
          (ys, g') = sample n (take i (x # xs) @ drop (Suc i) (x # xs)) (tl g)
      in ((x # xs) ! i # ys, g'))"

text \<open>
  Lines 91 to 147 on a table: the images saved, the generator's state, the lines printed
  and the exception that ended them, if one did. A chart is saved once its data is
  computed; what Matplotlib and Seaborn do with the data is outside the model, and a plot
  call is taken to return. \<^verbatim>\<open>sample(1000)\<close> raises \<^verbatim>\<open>ValueError\<close> on a table of
  fewer than 1000 rows.
\<close>

definition visualization ::
  "frame \<Rightarrow> nat list \<Rightarrow> (string \<times> row list) list \<times> nat list \<times> line list \<times> exn option" where
  "visualization d g =
     (case recent d of
        Inl e \<Rightarrow> ([], g, [], Some e)
      | Inr viz_df \<Rightarrow>
          let line_chart = (''global_cases_line.png'', rows viz_df);
              bar_chart = (''region_cases_bar.png'', rows viz_df);
              histogram = (''deaths_histogram.png'', rows viz_df)
          in if name New_cases \<notin> set (columns viz_df)
             then ([], g, [], Some (KeyError [name New_cases]))
             else if ''WHO_region'' \<notin> set (columns viz_df)
             then ([line_chart], g, [], Some (KeyError [''WHO_region'']))
             else if name New_deaths \<notin> set (columns viz_df)
             then ([line_chart, bar_chart], g, [], Some (KeyError [name New_deaths]))
             else if length (rows viz_df) < 1000
             then ([line_chart, bar_chart, histogram], g, [], Some ValueError)
             else let (drawn, g') = sample 1000 (rows viz_df) g
                  in ([line_chart, bar_chart, histogram, (''cases_deaths_scatter.png'', drawn)],
                      g', [Saved_files], None))"

definition task3_body :: "state \<Rightarrow> state" where
  "task3_body s =
     (case var_df s of
        None \<Rightarrow> s\<lparr>raised := Some (NameError ''df'')\<rparr>
      | Some d \<Rightarrow>
          (let (fs, g, ls, e) = visualization d (rng s)
           in (print ls s)\<lparr>files := files s @ fs, rng := g, raised := e\<rparr>))"

definition task3 :: "state \<Rightarrow> state" where
  "task3 s = (if raised s \<noteq> None then s else except_Exception Visualization_error (task3_body s))"

subsection \<open>The whole run\<close>

definition final_observations :: "state \<Rightarrow> state" where
  "final_observations s = (if raised s \<noteq> None then s else print [Observations] s)"

definition initial :: "nat list \<Rightarrow> state" where
  "initial g = \<lparr>var_df = None, out = [], files = [], rng = g, raised = None\<rparr>"

definition script :: "(string \<Rightarrow> parsed) \<Rightarrow> exn + frame \<Rightarrow> nat list \<Rightarrow> state" where
  "script parse response g =
     final_observations (task3 (task2 (task1 parse response (initial g))))"

section \<open>Notions of the specification\<close>

text \<open>
  "Sorted in descending order", for means that may be NaN: \<open>precedes a b\<close> says that
  \<open>a\<close> may stand before \<open>b\<close>.
\<close>

fun precedes :: "rat option \<Rightarrow> rat option \<Rightarrow> bool" where
  "precedes a None = True"
| "precedes None (Some y) = False"
| "precedes (Some x) (Some y) = (y \<le> x)"

text \<open>
  "The sum over the regions of the region's mean multiplied by the region's row count,
  divided by the total row count", in the arithmetic of the script: a NaN among the means
  makes the sum NaN, and so does a total of no rows.
\<close>

fun weighted_sum :: "(rat option \<times> nat) list \<Rightarrow> rat option" where
  "weighted_sum [] = Some 0"
| "weighted_sum ((None, n) # ws) = None"
| "weighted_sum ((Some m, n) # ws) = map_option (\<lambda>s. m * of_nat n + s) (weighted_sum ws)"

definition weighted_mean :: "(rat option \<times> nat) list \<Rightarrow> nat \<Rightarrow> rat option" where
  "weighted_mean ws n = (if n = 0 then None else map_option (\<lambda>s. s / of_nat n) (weighted_sum ws))"

definition region_weights :: "row list \<Rightarrow> (rat option \<times> nat) list" where
  "region_weights rs =
     map (\<lambda>(k, g). (mean (column New_cases g), length g)) (groupby WHO_region rs)"

text \<open>"A non-negative integer", for a cell.\<close>

definition nonneg_integer :: "rat option \<Rightarrow> bool" where
  "nonneg_integer x = (case x of None \<Rightarrow> False | Some v \<Rightarrow> 0 \<le> v \<and> of_int \<lfloor>v\<rfloor> = v)"

text \<open>
  "The mean of a column over a group of rows": the sum of the cells that hold a value,
  divided by their number; NaN when no cell holds a value.
\<close>

definition cells_with_value :: "numcol \<Rightarrow> row list \<Rightarrow> nat" where
  "cells_with_value c g = length (filter (\<lambda>r. get c r \<noteq> None) g)"

definition sum_of_values :: "numcol \<Rightarrow> row list \<Rightarrow> rat" where
  "sum_of_values c g = (\<Sum>r\<leftarrow>g. case get c r of None \<Rightarrow> 0 | Some v \<Rightarrow> v)"

definition average :: "numcol \<Rightarrow> row list \<Rightarrow> rat option" where
  "average c g =
     (if cells_with_value c g = 0 then None
      else Some (sum_of_values c g / of_nat (cells_with_value c g)))"

section \<open>Concrete tables\<close>

text \<open>
  A parser for the format of the WHO file, \<^verbatim>\<open>YYYY-MM-DD\<close>, used for the concrete
  runs below. pandas accepts more formats; no theorem depends on which.
\<close>

definition digit :: "char \<Rightarrow> nat option" where
  "digit c = (let n = of_char c in if 48 \<le> n \<and> n \<le> (57::nat) then Some (n - 48) else None)"

fun number :: "nat \<Rightarrow> string \<Rightarrow> nat option" where
  "number acc [] = Some acc"
| "number acc (c # cs) = (case digit c of None \<Rightarrow> None | Some d \<Rightarrow> number (10 * acc + d) cs)"

definition days_in_month :: "nat \<Rightarrow> nat \<Rightarrow> nat" where
  "days_in_month y m =
     (if m = 2 then (if y mod 4 = 0 \<and> (y mod 100 \<noteq> 0 \<or> y mod 400 = 0) then 29 else 28)
      else if m = 4 \<or> m = 6 \<or> m = 9 \<or> m = 11 then 30 else 31)"

definition iso_date :: "string \<Rightarrow> parsed" where
  "iso_date s =
     (if s = ''NaT'' then Not_a_time
      else if length s = 10 \<and> s ! 4 = CHR ''-'' \<and> s ! 7 = CHR ''-'' then
        (case (number 0 (take 4 s), number 0 (take 2 (drop 5 s)), number 0 (drop 8 s)) of
           (Some y, Some m, Some d) \<Rightarrow>
             if 1 \<le> m \<and> m \<le> 12 \<and> 1 \<le> d \<and> d \<le> days_in_month y m then Parsed (y, m, d)
             else Unparseable
         | _ \<Rightarrow> Unparseable)
      else Unparseable)"

text \<open>The header of the WHO file.\<close>

definition who_columns :: "string list" where
  "who_columns = [''Date_reported'', ''Country_code'', ''Country'', ''WHO_region'',
     ''New_cases'', ''Cumulative_cases'', ''New_deaths'', ''Cumulative_deaths'']"

definition report :: "date_cell \<Rightarrow> string option \<Rightarrow> rat option \<Rightarrow> rat option \<Rightarrow> row" where
  "report d code n m =
     \<lparr>Date_reported = d, Country_code = code,
      Country = Some ''Kenya'', WHO_region = Some ''AFRO'',
      new_cases = n, cumulative_cases = Some 40, new_deaths = m, cumulative_deaths = Some 2\<rparr>"

text \<open>
  Three reports as read from the file: the second has no country code, the third has
  no count of new cases, none has a count of new deaths.
\<close>

definition three_rows :: frame where
  "three_rows = \<lparr>columns = who_columns,
     rows = [report (Raw ''2025-01-02'') (Some ''KE'') (Some 7) None,
             report (Raw ''2025-01-03'') None (Some 9) None,
             report (Raw ''2025-01-04'') (Some ''KE'') None None]\<rparr>"

definition three_rows_converted :: frame where
  "three_rows_converted = \<lparr>columns = who_columns,
     rows = [report (Ts (2025, 1, 2)) (Some ''KE'') (Some 7) None,
             report (Ts (2025, 1, 3)) None (Some 9) None,
             report (Ts (2025, 1, 4)) (Some ''KE'') None None]\<rparr>"

definition three_rows_kept :: frame where
  "three_rows_kept = \<lparr>columns = who_columns,
     rows = [report (Ts (2025, 1, 2)) (Some ''KE'') (Some 7) None,
             report (Ts (2025, 1, 4)) (Some ''KE'') None None]\<rparr>"

definition three_rows_cleaned :: frame where
  "three_rows_cleaned = \<lparr>columns = who_columns,
     rows = [report (Ts (2025, 1, 2)) (Some ''KE'') (Some 7) (Some 0),
             report (Ts (2025, 1, 4)) (Some ''KE'') (Some 7) (Some 0)]\<rparr>"

text \<open>One report with a downward correction, as the WHO file has them.\<close>

definition correction :: frame where
  "correction = \<lparr>columns = who_columns,
     rows = [report (Raw ''2025-01-02'') (Some ''KE'') (Some (- 5)) (Some 0)]\<rparr>"

text \<open>
  Reports of January 2025 as the cleaning stage leaves them: day, country, region, new
  cases, cumulative deaths.
\<close>

definition entry :: "nat \<Rightarrow> string \<Rightarrow> string option \<Rightarrow> rat \<Rightarrow> rat \<Rightarrow> row" where
  "entry day country region n deaths =
     \<lparr>Date_reported = Ts (2025, 1, day), Country_code = Some (take 2 country),
      Country = Some country, WHO_region = region,
      new_cases = Some n, cumulative_cases = Some n, new_deaths = Some 0,
      cumulative_deaths = Some deaths\<rparr>"

definition two_regions :: frame where
  "two_regions = \<lparr>columns = who_columns,
     rows = [entry 2 ''Kenya'' (Some ''AFRO'') 10 3,
             entry 2 ''France'' (Some ''EURO'') 20 8,
             entry 3 ''Kenya'' (Some ''AFRO'') 60 5]\<rparr>"

text \<open>A table in which one report has no WHO region.\<close>

definition no_region :: frame where
  "no_region = \<lparr>columns = who_columns,
     rows = [entry 2 ''Kenya'' (Some ''AFRO'') 10 3,
             entry 2 ''Diamond Princess'' None 20 0]\<rparr>"

text \<open>
  Eleven countries. Kenya has two reports, of 9 and of 13 cumulative deaths; Japan has
  two, one of them without a count.
\<close>

definition eleven_countries :: frame where
  "eleven_countries = \<lparr>columns = who_columns,
     rows = [entry 2 ''Austria'' (Some ''EURO'') 0 1,
             entry 2 ''Belgium'' (Some ''EURO'') 0 2,
             entry 2 ''Chile'' (Some ''AMRO'') 0 3,
             entry 2 ''Denmark'' (Some ''EURO'') 0 4,
             entry 2 ''Egypt'' (Some ''EMRO'') 0 5,
             entry 2 ''France'' (Some ''EURO'') 0 6,
             entry 2 ''Ghana'' (Some ''AFRO'') 0 7,
             entry 2 ''Haiti'' (Some ''AMRO'') 0 8,
             entry 2 ''India'' (Some ''SEARO'') 0 9,
             entry 2 ''Japan'' (Some ''WPRO'') 0 10,
             (entry 3 ''Japan'' (Some ''WPRO'') 0 0)\<lparr>cumulative_deaths := None\<rparr>,
             entry 2 ''Kenya'' (Some ''AFRO'') 0 9,
             entry 3 ''Kenya'' (Some ''AFRO'') 0 13]\<rparr>"

definition ten_countries :: "(string \<times> rat option) list" where
  "ten_countries =
     [(''Kenya'', Some 11), (''Japan'', Some 10), (''India'', Some 9), (''Haiti'', Some 8),
      (''Ghana'', Some 7), (''France'', Some 6), (''Egypt'', Some 5), (''Denmark'', Some 4),
      (''Chile'', Some 3), (''Belgium'', Some 2)]"

text \<open>
  A report of the last day of 2024 and one of the first day of 2025: as read from the
  file, with the dates converted, and the rows of 2025.
\<close>

definition two_years_raw :: frame where
  "two_years_raw = \<lparr>columns = who_columns,
     rows = [report (Raw ''2024-12-31'') (Some ''KE'') (Some 4) (Some 0),
             report (Raw ''2025-01-01'') (Some ''KE'') (Some 6) (Some 0)]\<rparr>"

definition two_years :: frame where
  "two_years = \<lparr>columns = who_columns,
     rows = [report (Ts (2024, 12, 31)) (Some ''KE'') (Some 4) (Some 0),
             report (Ts (2025, 1, 1)) (Some ''KE'') (Some 6) (Some 0)]\<rparr>"

definition year_2025 :: frame where
  "year_2025 = \<lparr>columns = who_columns,
     rows = [report (Ts (2025, 1, 1)) (Some ''KE'') (Some 6) (Some 0)]\<rparr>"

text \<open>Two states before Task 2 that agree on the table and on nothing else.\<close>

definition run_a :: state where
  "run_a = \<lparr>var_df = Some two_regions, out = [], files = [], rng = [1], raised = None\<rparr>"

definition run_b :: state where
  "run_b = \<lparr>var_df = Some two_regions, out = [Observations], files = [], rng = [2, 7],
     raised = None\<rparr>"


text \<open>
  Two reports of 2024 whose dates are not in a form that line 40 can convert: the first
  is no date, the second is the last day of 2024 written day first.
\<close>

definition bad_dates :: frame where
  "bad_dates = \<lparr>columns = who_columns,
     rows = [report (Raw ''not-a-date'') (Some ''KE'') (Some 4) (Some 0),
             report (Raw ''31/12/2024'') (Some ''KE'') (Some 6) (Some 0)]\<rparr>"

section \<open>Properties of the cleaning stage\<close>

lemma get_put: "get c (put c' v r) = (if c = c' then v else get c r)"
  by (cases c; cases c') simp_all

lemma put_frame [simp]:
  "Date_reported (put c v r) = Date_reported r"
  "Country_code (put c v r) = Country_code r"
  "Country (put c v r) = Country r"
  "WHO_region (put c v r) = WHO_region r"
  by (cases c; simp)+

lemma put_put: "put c w (put c v r) = put c w r"
  by (cases c) simp_all

lemma to_datetime_cell_not_Raw: "to_datetime_cell parse c = Inr d \<Longrightarrow> d \<noteq> Raw s"
  by (cases c) (auto split: parsed.splits)

lemma to_datetime_length: "to_datetime parse cs = Inr ds \<Longrightarrow> length ds = length cs"
  by (induction cs arbitrary: ds) (auto split: sum.splits)

lemma to_datetime_nth:
  "to_datetime parse cs = Inr ds \<Longrightarrow> i < length cs \<Longrightarrow> to_datetime_cell parse (cs ! i) = Inr (ds ! i)"
proof (induction cs arbitrary: ds i)
  case Nil
  then show ?case by simp
next
  case (Cons c cs)
  then show ?case by (cases i) (auto split: sum.splits)
qed

lemma length_set_dates: "length ds = length rs \<Longrightarrow> length (set_dates ds rs) = length rs"
  by (simp add: set_dates_def)

lemma nth_set_dates:
  "length ds = length rs \<Longrightarrow> i < length rs \<Longrightarrow> set_dates ds rs ! i = (rs ! i)\<lparr>Date_reported := ds ! i\<rparr>"
  by (simp add: set_dates_def)

lemma length_ffill [simp]: "length (ffill p xs) = length xs"
  by (induction p xs rule: ffill.induct) simp_all

lemma length_fillna [simp]: "length (fillna v xs) = length xs"
  by (simp add: fillna_def)

lemma length_column [simp]: "length (column c rs) = length rs"
  by (simp add: column_def)

lemma length_set_column: "length vs = length rs \<Longrightarrow> length (set_column c vs rs) = length rs"
  by (simp add: set_column_def)

lemma nth_set_column:
  "length vs = length rs \<Longrightarrow> i < length rs \<Longrightarrow> set_column c vs rs ! i = put c (vs ! i) (rs ! i)"
  by (simp add: set_column_def)

lemma column_set_column: "length vs = length rs \<Longrightarrow> column c (set_column c vs rs) = vs"
  by (rule nth_equalityI) (simp_all add: column_def set_column_def get_put)

lemma set_column_twice:
  "length vs = length rs \<Longrightarrow> length ws = length rs \<Longrightarrow>
   set_column c ws (set_column c vs rs) = set_column c ws rs"
  by (rule nth_equalityI) (simp_all add: set_column_def put_put)

text \<open>ffill\<close>

lemma ffill_Some: "i < length xs \<Longrightarrow> xs ! i = Some v \<Longrightarrow> ffill p xs ! i = Some v"
proof (induction p xs arbitrary: i rule: ffill.induct)
  case (1 p) then show ?case by simp
next
  case (2 p xs) then show ?case by (cases i) auto
next
  case (3 p v xs) then show ?case by (cases i) auto
qed

lemma ffill_None_Suc:
  "Suc i < length xs \<Longrightarrow> xs ! Suc i = None \<Longrightarrow> ffill p xs ! Suc i = ffill p xs ! i"
proof (induction p xs arbitrary: i rule: ffill.induct)
  case (1 p) then show ?case by simp
next
  case (2 p xs)
  then show ?case by (cases i; cases xs) (auto split: option.splits)
next
  case (3 p v xs)
  then show ?case by (cases i; cases xs) (auto split: option.splits)
qed

lemma ffill_all_None:
  "i < length xs \<Longrightarrow> \<forall>j\<le>i. xs ! j = None \<Longrightarrow> ffill p xs ! i = p"
proof (induction p xs arbitrary: i rule: ffill.induct)
  case (1 p) then show ?case by simp
next
  case (2 p xs)
  show ?case
  proof (cases i)
    case 0 then show ?thesis by simp
  next
    case (Suc k)
    have "\<forall>j\<le>k. xs ! j = None"
      using "2.prems"(2) Suc by (metis Suc_le_mono nth_Cons_Suc)
    with 2 Suc show ?thesis by simp
  qed
next
  case (3 p v xs)
  then have "(Some v # xs) ! 0 = None" by blast
  then show ?case by simp
qed

lemma ffill_values:
  "i < length xs \<Longrightarrow> ffill p xs ! i = Some v \<Longrightarrow> p = Some v \<or> Some v \<in> set xs"
proof (induction p xs arbitrary: i rule: ffill.induct)
  case (1 p) then show ?case by simp
next
  case (2 p xs) then show ?case by (cases i) auto
next
  case (3 p w xs) then show ?case by (cases i) auto
qed

lemma fillna_nth: "i < length xs \<Longrightarrow> fillna v xs ! i = Some (case xs ! i of None \<Rightarrow> v | Some w \<Rightarrow> w)"
  by (simp add: fillna_def split: option.splits)


lemma length_filled [simp]: "length (filled c rs) = length rs"
  by (simp add: filled_def)

lemma rows_fill_column:
  "name c \<in> set (columns df) \<Longrightarrow>
   rows (fill_column c df) = set_column c (filled c (rows df)) (rows df)"
  by (simp add: fill_column_def Let_def filled_def column_set_column set_column_twice
      length_set_column)

lemma columns_fill_column [simp]: "columns (fill_column c df) = columns df"
  by (simp add: fill_column_def Let_def)

lemma length_rows_fill_column [simp]: "length (rows (fill_column c df)) = length (rows df)"
  by (cases "name c \<in> set (columns df)")
     (simp_all add: rows_fill_column length_set_column, simp add: fill_column_def)

lemma nth_rows_fill_column:
  "i < length (rows df) \<Longrightarrow>
   rows (fill_column c df) ! i =
     (if name c \<in> set (columns df) then put c (filled c (rows df) ! i) (rows df ! i)
      else rows df ! i)"
  by (cases "name c \<in> set (columns df)")
     (simp_all add: rows_fill_column nth_set_column, simp add: fill_column_def)

lemma column_fill_column_other:
  assumes "c' \<noteq> c"
  shows "column c' (rows (fill_column c df)) = column c' (rows df)"
proof (rule nth_equalityI)
  show "length (column c' (rows (fill_column c df))) = length (column c' (rows df))"
    by simp
next
  fix i assume "i < length (column c' (rows (fill_column c df)))"
  then have i: "i < length (rows df)" by simp
  then show "column c' (rows (fill_column c df)) ! i = column c' (rows df) ! i"
    using assms by (simp add: column_def nth_rows_fill_column get_put)
qed

lemma length_rows_fold_fill [simp]: "length (rows (fold fill_column cs df)) = length (rows df)"
  by (induction cs arbitrary: df) simp_all

lemma columns_fold_fill [simp]: "columns (fold fill_column cs df) = columns df"
  by (induction cs arbitrary: df) simp_all

lemma get_fold_fill:
  "distinct cs \<Longrightarrow> i < length (rows df) \<Longrightarrow>
   get c (rows (fold fill_column cs df) ! i) =
     (if c \<in> set cs \<and> name c \<in> set (columns df) then filled c (rows df) ! i
      else get c (rows df ! i))"
proof (induction cs arbitrary: df)
  case Nil
  then show ?case by simp
next
  case (Cons x cs)
  have len: "i < length (rows (fill_column x df))" using Cons.prems by simp
  have ih: "get c (rows (fold fill_column cs (fill_column x df)) ! i) =
     (if c \<in> set cs \<and> name c \<in> set (columns df) then filled c (rows (fill_column x df)) ! i
      else get c (rows (fill_column x df) ! i))"
    using Cons.IH [OF _ len] Cons.prems by simp
  show ?case
  proof (cases "c \<in> set cs")
    case True
    then have "c \<noteq> x" using Cons.prems by auto
    then have "filled c (rows (fill_column x df)) = filled c (rows df)"
      by (simp add: filled_def column_fill_column_other)
    with True ih \<open>c \<noteq> x\<close> Cons.prems show ?thesis
      by (simp add: nth_rows_fill_column get_put)
  next
    case False
    with ih Cons.prems show ?thesis
      by (auto simp: nth_rows_fill_column get_put)
  qed
qed

lemma frame_fold_fill:
  "i < length (rows df) \<Longrightarrow>
   Date_reported (rows (fold fill_column cs df) ! i) = Date_reported (rows df ! i) \<and>
   Country_code (rows (fold fill_column cs df) ! i) = Country_code (rows df ! i) \<and>
   Country (rows (fold fill_column cs df) ! i) = Country (rows df ! i) \<and>
   WHO_region (rows (fold fill_column cs df) ! i) = WHO_region (rows df ! i)"
proof (induction cs arbitrary: df)
  case Nil
  then show ?case by simp
next
  case (Cons x cs)
  have "i < length (rows (fill_column x df))" using Cons.prems by simp
  from Cons.IH [OF this] Cons.prems show ?case
    by (simp add: nth_rows_fill_column)
qed

lemma distinct_numeric_columns: "distinct numeric_columns"
  by (simp add: numeric_columns_def)

lemma set_numeric_columns: "c \<in> set numeric_columns"
  by (cases c) (simp_all add: numeric_columns_def)

lemma get_fill_numeric:
  "i < length (rows df) \<Longrightarrow>
   get c (rows (fill_numeric df) ! i) =
     (if name c \<in> set (columns df) then filled c (rows df) ! i else get c (rows df ! i))"
  by (simp add: fill_numeric_def get_fold_fill distinct_numeric_columns set_numeric_columns)

lemma length_rows_fill_numeric [simp]: "length (rows (fill_numeric df)) = length (rows df)"
  by (simp add: fill_numeric_def)

lemma columns_fill_numeric [simp]: "columns (fill_numeric df) = columns df"
  by (simp add: fill_numeric_def)

lemma frame_fill_numeric:
  "i < length (rows df) \<Longrightarrow>
   Date_reported (rows (fill_numeric df) ! i) = Date_reported (rows df ! i) \<and>
   Country_code (rows (fill_numeric df) ! i) = Country_code (rows df ! i) \<and>
   Country (rows (fill_numeric df) ! i) = Country (rows df ! i) \<and>
   WHO_region (rows (fill_numeric df) ! i) = WHO_region (rows df ! i)"
  unfolding fill_numeric_def by (rule frame_fold_fill)

lemma filled_nth:
  "i < length rs \<Longrightarrow>
   filled c rs ! i = Some (case ffill None (column c rs) ! i of None \<Rightarrow> 0 | Some w \<Rightarrow> w)"
  by (simp add: filled_def fillna_nth)

lemma cleaning_done:
  "cleaning parse df = (df', None) \<Longrightarrow>
   \<exists>df1 df2. convert_dates parse df = Inr df1 \<and> dropna df1 = Inr df2 \<and> df' = fill_numeric df2"
  by (auto simp: cleaning_def split: sum.splits)

lemma convert_dates_Inr:
  assumes "convert_dates parse df = Inr df1"
  shows "''Date_reported'' \<in> set (columns df)" and "columns df1 = columns df"
    and "length (rows df1) = length (rows df)"
    and "i < length (rows df) \<Longrightarrow>
       \<exists>d. to_datetime_cell parse (Date_reported (rows df ! i)) = Inr d \<and>
           rows df1 ! i = (rows df ! i)\<lparr>Date_reported := d\<rparr>"
proof -
  show c: "''Date_reported'' \<in> set (columns df)"
    using assms by (auto simp: convert_dates_def split: if_splits)
  from assms c obtain ds where ds: "to_datetime parse (map Date_reported (rows df)) = Inr ds"
    and df1: "df1 = df\<lparr>rows := set_dates ds (rows df)\<rparr>"
    by (auto simp: convert_dates_def split: sum.splits)
  have len: "length ds = length (rows df)"
    using to_datetime_length [OF ds] by simp
  show "columns df1 = columns df" by (simp add: df1)
  show "length (rows df1) = length (rows df)" by (simp add: df1 length_set_dates len)
  assume i: "i < length (rows df)"
  have "to_datetime_cell parse (Date_reported (rows df ! i)) = Inr (ds ! i)"
    using to_datetime_nth [OF ds, of i] i by simp
  moreover have "rows df1 ! i = (rows df ! i)\<lparr>Date_reported := ds ! i\<rparr>"
    by (simp add: df1 nth_set_dates len i)
  ultimately show "\<exists>d. to_datetime_cell parse (Date_reported (rows df ! i)) = Inr d \<and>
           rows df1 ! i = (rows df ! i)\<lparr>Date_reported := d\<rparr>"
    by blast
qed

lemma dropna_Inr:
  "dropna df1 = Inr df2 \<Longrightarrow>
   columns df2 = columns df1 \<and> rows df2 = filter has_core (rows df1) \<and>
   ''Country_code'' \<in> set (columns df1)"
  by (auto simp: dropna_def Let_def split: if_splits)

lemma get_date_update [simp]: "get c (r\<lparr>Date_reported := d\<rparr>) = get c r"
  by (cases c) simp_all

lemma cleaned_row:
  assumes "cleaning parse df = (df', None)" and "r \<in> set (rows df')"
  obtains df1 df2 i where "convert_dates parse df = Inr df1" and "dropna df1 = Inr df2"
    and "df' = fill_numeric df2" and "i < length (rows df2)" and "r = rows df' ! i"
proof -
  from cleaning_done [OF assms(1)] obtain df1 df2 where
    *: "convert_dates parse df = Inr df1" "dropna df1 = Inr df2" "df' = fill_numeric df2"
    by blast
  from assms(2) obtain i where "i < length (rows df')" "r = rows df' ! i"
    by (auto simp: in_set_conv_nth)
  with * that show thesis by simp
qed

lemma converted_not_Raw:
  assumes "convert_dates parse df = Inr df1" and "r \<in> set (rows df1)"
  shows "Date_reported r \<noteq> Raw s"
proof -
  from assms(2) obtain j where j: "j < length (rows df1)" "r = rows df1 ! j"
    by (auto simp: in_set_conv_nth)
  then have "j < length (rows df)" using convert_dates_Inr(3) [OF assms(1)] by simp
  from convert_dates_Inr(4) [OF assms(1) this] obtain d where
    "to_datetime_cell parse (Date_reported (rows df ! j)) = Inr d"
    "rows df1 ! j = (rows df ! j)\<lparr>Date_reported := d\<rparr>" by blast
  with j show ?thesis by (auto dest: to_datetime_cell_not_Raw)
qed


lemmas example_defs =
  three_rows_def three_rows_converted_def three_rows_kept_def three_rows_cleaned_def
  correction_def report_def who_columns_def iso_date_def digit_def days_in_month_def

lemmas cleaning_defs =
  convert_dates_def dropna_def fill_numeric_def fill_column_def numeric_columns_def
  set_dates_def set_column_def column_def fillna_def has_core_def

lemma convert_three_rows: "convert_dates iso_date three_rows = Inr three_rows_converted"
  by (simp add: cleaning_defs example_defs)

lemma dropna_three_rows: "dropna three_rows_converted = Inr three_rows_kept"
  by (simp add: cleaning_defs example_defs)

lemma fill_three_rows: "fill_numeric three_rows_kept = three_rows_cleaned"
  by (simp add: cleaning_defs example_defs)

lemma cleaning_three_rows: "cleaning iso_date three_rows = (three_rows_cleaned, None)"
  by (simp add: cleaning_def convert_three_rows dropna_three_rows fill_three_rows)

lemma cleaned_core:
  assumes "cleaning parse df = (df', None)" and "r \<in> set (rows df')"
  shows "(\<exists>t. Date_reported r = Ts t) \<and> Country_code r \<noteq> None"
proof -
  from assms obtain df1 df2 i where conv: "convert_dates parse df = Inr df1"
    and drop: "dropna df1 = Inr df2" and df': "df' = fill_numeric df2"
    and i: "i < length (rows df2)" and r: "r = rows df' ! i"
    by (rule cleaned_row)
  let ?k = "rows df2 ! i"
  have k: "?k \<in> set (filter has_core (rows df1))"
    using dropna_Inr [OF drop] i by (metis nth_mem)
  then have core: "has_core ?k" and k1: "?k \<in> set (rows df1)" by simp_all
  have same: "Date_reported r = Date_reported ?k" "Country_code r = Country_code ?k"
    using frame_fill_numeric [OF i] by (simp_all add: r df')
  have "Date_reported ?k \<noteq> NaT" "Country_code ?k \<noteq> None"
    using core by (simp_all add: has_core_def)
  moreover have "\<exists>t. Date_reported ?k = Ts t"
    using converted_not_Raw [OF conv k1] \<open>Date_reported ?k \<noteq> NaT\<close>
    by (cases "Date_reported ?k") auto
  ultimately show ?thesis using same by simp
qed

text \<open>
  Claim C1. When the cleaning stage completes, no remaining row has a missing date or a
  missing country code, and a numeric column that the table has holds no missing value
  in any remaining row. The date of a remaining row is a time stamp.
\<close>

theorem cleaning_no_missing:
  assumes "cleaning parse df = (df', None)" and "r \<in> set (rows df')"
  shows "Date_reported r \<noteq> NaT \<and> (\<exists>t. Date_reported r = Ts t) \<and> Country_code r \<noteq> None \<and>
         (\<forall>c. name c \<in> set (columns df) \<longrightarrow> get c r \<noteq> None)"
proof -
  from assms obtain df1 df2 i where conv: "convert_dates parse df = Inr df1"
    and drop: "dropna df1 = Inr df2" and df': "df' = fill_numeric df2"
    and i: "i < length (rows df2)" and r: "r = rows df' ! i"
    by (rule cleaned_row)
  have "get c r \<noteq> None" if "name c \<in> set (columns df)" for c
  proof -
    have "columns df2 = columns df"
      using dropna_Inr [OF drop] convert_dates_Inr(2) [OF conv] by simp
    with that i show ?thesis
      by (simp add: r df' get_fill_numeric filled_nth)
  qed
  with cleaned_core [OF assms] show ?thesis by auto
qed

theorem cleaning_no_missing_witness:
  "cleaning iso_date three_rows = (three_rows_cleaned, None) \<and>
   rows three_rows_cleaned ! 1 \<in> set (rows three_rows_cleaned) \<and>
   Date_reported (rows three_rows_cleaned ! 1) \<noteq> NaT \<and>
   (\<exists>t. Date_reported (rows three_rows_cleaned ! 1) = Ts t) \<and>
   Country_code (rows three_rows_cleaned ! 1) \<noteq> None \<and>
   name New_deaths \<in> set (columns three_rows) \<and>
   get New_deaths (rows three_rows_cleaned ! 1) \<noteq> None"
proof -
  have h: "rows three_rows_cleaned ! 1 \<in> set (rows three_rows_cleaned)"
    by (simp add: three_rows_cleaned_def)
  have c: "name New_deaths \<in> set (columns three_rows)"
    by (simp add: example_defs)
  show ?thesis
    using cleaning_no_missing [OF cleaning_three_rows h] cleaning_three_rows h c by blast
qed


text \<open>
  Claim C2. The series that is filled is the column of the table after the rows without
  date or country code have been dropped (\<open>df2\<close>). In each numeric column that the
  table has: where the cell of row \<open>i\<close> is missing and the cell of row \<open>i - 1\<close> is
  valid, the cleaned cell of row \<open>i\<close> is the value of row \<open>i - 1\<close>; where no cell
  before row \<open>i\<close> is valid, the cleaned cell is 0.
\<close>

theorem forward_fill:
  assumes "convert_dates parse df = Inr df1" and "dropna df1 = Inr df2"
    and "name c \<in> set (columns df)"
    and "i < length (rows df2)" and "get c (rows df2 ! i) = None"
  shows "cleaning parse df = (fill_numeric df2, None) \<and>
         (0 < i \<and> get c (rows df2 ! (i - 1)) = Some v \<longrightarrow>
            get c (rows (fill_numeric df2) ! i) = Some v) \<and>
         ((\<forall>j<i. get c (rows df2 ! j) = None) \<longrightarrow>
            get c (rows (fill_numeric df2) ! i) = Some 0)"
proof -
  let ?xs = "column c (rows df2)"
  have cols: "name c \<in> set (columns df2)"
    using dropna_Inr [OF assms(2)] convert_dates_Inr(2) [OF assms(1)] assms(3) by simp
  have out: "get c (rows (fill_numeric df2) ! i) =
      Some (case ffill None ?xs ! i of None \<Rightarrow> 0 | Some w \<Rightarrow> w)"
    using assms(4) cols by (simp add: get_fill_numeric filled_nth)
  have xi: "?xs ! i = None" using assms(4,5) by (simp add: column_def)
  have "cleaning parse df = (fill_numeric df2, None)"
    using assms(1,2) by (simp add: cleaning_def)
  moreover have "get c (rows (fill_numeric df2) ! i) = Some v"
    if "0 < i" "get c (rows df2 ! (i - 1)) = Some v"
  proof -
    from that(1) obtain k where k: "i = Suc k" by (cases i) auto
    have "ffill None ?xs ! Suc k = ffill None ?xs ! k"
      using assms(4) xi k by (intro ffill_None_Suc) simp_all
    moreover have "ffill None ?xs ! k = Some v"
      using assms(4) that(2) k by (intro ffill_Some) (simp_all add: column_def)
    ultimately show ?thesis using out k by simp
  qed
  moreover have "get c (rows (fill_numeric df2) ! i) = Some 0"
    if "\<forall>j<i. get c (rows df2 ! j) = None"
  proof -
    have "\<forall>j\<le>i. ?xs ! j = None"
      using that xi assms(4) by (auto simp: column_def le_less)
    then have "ffill None ?xs ! i = None"
      using assms(4) by (intro ffill_all_None) simp_all
    then show ?thesis using out by simp
  qed
  ultimately show ?thesis by blast
qed

theorem forward_fill_witness:
  "convert_dates iso_date three_rows = Inr three_rows_converted \<and>
   dropna three_rows_converted = Inr three_rows_kept \<and>
   name New_cases \<in> set (columns three_rows) \<and>
   1 < length (rows three_rows_kept) \<and>
   get New_cases (rows three_rows_kept ! 1) = None \<and>
   (0 < (1::nat) \<and> get New_cases (rows three_rows_kept ! (1 - 1)) = Some 7) \<and>
   get New_cases (rows (fill_numeric three_rows_kept) ! 1) = Some 7"
proof -
  have c: "name New_cases \<in> set (columns three_rows)"
    by (simp add: example_defs)
  have i: "1 < length (rows three_rows_kept)"
    and m: "get New_cases (rows three_rows_kept ! 1) = None"
    and v: "get New_cases (rows three_rows_kept ! (1 - 1)) = Some 7"
    by (simp_all add: example_defs)
  show ?thesis
    using forward_fill [OF convert_three_rows dropna_three_rows c i m, of 7]
      convert_three_rows dropna_three_rows c i m v by simp
qed

lemma forward_fill_no_prior:
  "get New_deaths (rows three_rows_kept ! 1) = None \<and>
   (\<forall>j<1. get New_deaths (rows three_rows_kept ! j) = None) \<and>
   get New_deaths (rows (fill_numeric three_rows_kept) ! 1) = Some 0"
  by (simp add: fill_three_rows) (simp add: example_defs)


text \<open>
  Claim C6, as the code has it. After cleaning, in every remaining row, a numeric column
  that the table has holds a value, never a missing one: a value that the column has in
  the input table, or 0. The script looks at neither sign nor integrality, so a
  negative or fractional value of the input stays.
\<close>

theorem cleaning_values:
  assumes "cleaning parse df = (df', None)" and "r \<in> set (rows df')"
    and "name c \<in> set (columns df)"
  shows "\<exists>v. get c r = Some v \<and> (v = 0 \<or> (\<exists>r0\<in>set (rows df). get c r0 = Some v))"
proof -
  from assms(1,2) obtain df1 df2 i where conv: "convert_dates parse df = Inr df1"
    and drop: "dropna df1 = Inr df2" and df': "df' = fill_numeric df2"
    and i: "i < length (rows df2)" and r: "r = rows df' ! i"
    by (rule cleaned_row)
  let ?xs = "column c (rows df2)"
  have cols: "name c \<in> set (columns df2)"
    using dropna_Inr [OF drop] convert_dates_Inr(2) [OF conv] assms(3) by simp
  have out: "get c r = Some (case ffill None ?xs ! i of None \<Rightarrow> 0 | Some w \<Rightarrow> w)"
    using i cols by (simp add: r df' get_fill_numeric filled_nth)
  show ?thesis
  proof (cases "ffill None ?xs ! i")
    case None
    with out show ?thesis by simp
  next
    case (Some w)
    then have "Some w \<in> set ?xs"
      using ffill_values [of i ?xs None w] i by simp
    then obtain r2 where r2: "r2 \<in> set (rows df2)" "get c r2 = Some w"
      by (auto simp: column_def)
    then have "r2 \<in> set (rows df1)" using dropna_Inr [OF drop] by simp
    then obtain j where j: "j < length (rows df1)" "r2 = rows df1 ! j"
      by (auto simp: in_set_conv_nth)
    then have jj: "j < length (rows df)" using convert_dates_Inr(3) [OF conv] by simp
    from convert_dates_Inr(4) [OF conv jj] obtain d where
      "rows df1 ! j = (rows df ! j)\<lparr>Date_reported := d\<rparr>" by blast
    with r2 j have "get c (rows df ! j) = Some w" by simp
    with jj have "\<exists>r0\<in>set (rows df). get c r0 = Some w" by (metis nth_mem)
    with out Some show ?thesis by simp
  qed
qed

theorem cleaning_values_witness:
  "cleaning iso_date three_rows = (three_rows_cleaned, None) \<and>
   rows three_rows_cleaned ! 1 \<in> set (rows three_rows_cleaned) \<and>
   name New_cases \<in> set (columns three_rows) \<and>
   (\<exists>v. get New_cases (rows three_rows_cleaned ! 1) = Some v \<and>
        (v = 0 \<or> (\<exists>r0\<in>set (rows three_rows). get New_cases r0 = Some v)))"
proof -
  have h: "rows three_rows_cleaned ! 1 \<in> set (rows three_rows_cleaned)"
    by (simp add: three_rows_cleaned_def)
  have c: "name New_cases \<in> set (columns three_rows)"
    by (simp add: example_defs)
  show ?thesis
    using cleaning_values [OF cleaning_three_rows h c] cleaning_three_rows h c by blast
qed

text \<open>
  The claim as the specification states it fails: a report of \<open>- 5\<close> new cases passes
  the cleaning stage as it is.
\<close>

theorem cleaning_keeps_negative:
  "snd (cleaning iso_date correction) = None \<and>
   map (get New_cases) (rows (fst (cleaning iso_date correction))) = [Some (- 5)] \<and>
   \<not> nonneg_integer (Some (- 5))"
  by (simp add: cleaning_def cleaning_defs example_defs nonneg_integer_def)


text \<open>
  Claim C10. Cleaning keeps the rows that have a date and a country code once the dates
  are converted, in their order, and drops the others. In a kept row the country code,
  the country, the region and the converted date stay as they are; a numeric cell
  stays as it is where it held a value or where its column is not in the table.
  Converting the dates changes no other field.
\<close>

theorem cleaning_frame:
  assumes "cleaning parse df = (df', None)"
  shows "\<exists>df1. convert_dates parse df = Inr df1 \<and>
      length (rows df1) = length (rows df) \<and>
      (\<forall>j<length (rows df). \<exists>d. to_datetime_cell parse (Date_reported (rows df ! j)) = Inr d \<and>
           rows df1 ! j = (rows df ! j)\<lparr>Date_reported := d\<rparr>) \<and>
      columns df' = columns df \<and>
      length (rows df') = length (filter has_core (rows df1)) \<and>
      (\<forall>i<length (rows df').
         Date_reported (rows df' ! i) = Date_reported (filter has_core (rows df1) ! i) \<and>
         Country_code (rows df' ! i) = Country_code (filter has_core (rows df1) ! i) \<and>
         Country (rows df' ! i) = Country (filter has_core (rows df1) ! i) \<and>
         WHO_region (rows df' ! i) = WHO_region (filter has_core (rows df1) ! i) \<and>
         (\<forall>c. get c (filter has_core (rows df1) ! i) \<noteq> None \<or> name c \<notin> set (columns df) \<longrightarrow>
              get c (rows df' ! i) = get c (filter has_core (rows df1) ! i)))"
proof -
  from cleaning_done [OF assms] obtain df1 df2 where conv: "convert_dates parse df = Inr df1"
    and drop: "dropna df1 = Inr df2" and df': "df' = fill_numeric df2" by blast
  have rows2: "rows df2 = filter has_core (rows df1)" and cols2: "columns df2 = columns df"
    using dropna_Inr [OF drop] convert_dates_Inr(2) [OF conv] by simp_all
  have nums: "get c (rows df' ! i) = get c (rows df2 ! i)"
    if "i < length (rows df2)" "get c (rows df2 ! i) \<noteq> None \<or> name c \<notin> set (columns df)" for i c
  proof (cases "name c \<in> set (columns df)")
    case True
    with that obtain v where v: "get c (rows df2 ! i) = Some v" by auto
    then have "ffill None (column c (rows df2)) ! i = Some v"
      using that(1) by (intro ffill_Some) (simp_all add: column_def)
    with True that(1) v show ?thesis
      by (simp add: df' get_fill_numeric filled_nth cols2)
  next
    case False
    with that(1) show ?thesis by (simp add: df' get_fill_numeric cols2)
  qed
  have "\<forall>i<length (rows df').
         Date_reported (rows df' ! i) = Date_reported (filter has_core (rows df1) ! i) \<and>
         Country_code (rows df' ! i) = Country_code (filter has_core (rows df1) ! i) \<and>
         Country (rows df' ! i) = Country (filter has_core (rows df1) ! i) \<and>
         WHO_region (rows df' ! i) = WHO_region (filter has_core (rows df1) ! i) \<and>
         (\<forall>c. get c (filter has_core (rows df1) ! i) \<noteq> None \<or> name c \<notin> set (columns df) \<longrightarrow>
              get c (rows df' ! i) = get c (filter has_core (rows df1) ! i))"
  proof (intro allI impI)
    fix i assume "i < length (rows df')"
    then have i: "i < length (rows df2)" by (simp add: df')
    show "Date_reported (rows df' ! i) = Date_reported (filter has_core (rows df1) ! i) \<and>
         Country_code (rows df' ! i) = Country_code (filter has_core (rows df1) ! i) \<and>
         Country (rows df' ! i) = Country (filter has_core (rows df1) ! i) \<and>
         WHO_region (rows df' ! i) = WHO_region (filter has_core (rows df1) ! i) \<and>
         (\<forall>c. get c (filter has_core (rows df1) ! i) \<noteq> None \<or> name c \<notin> set (columns df) \<longrightarrow>
              get c (rows df' ! i) = get c (filter has_core (rows df1) ! i))"
      using frame_fill_numeric [OF i] nums [OF i] by (simp add: df' flip: rows2)
  qed
  moreover have "length (rows df') = length (filter has_core (rows df1))"
    by (simp add: df' rows2)
  moreover have "columns df' = columns df" by (simp add: df' cols2)
  ultimately show ?thesis
    using conv convert_dates_Inr(3,4) [OF conv] by blast
qed

theorem cleaning_frame_witness:
  "cleaning iso_date three_rows = (three_rows_cleaned, None) \<and>
   convert_dates iso_date three_rows = Inr three_rows_converted \<and>
   filter has_core (rows three_rows_converted) = rows three_rows_kept \<and>
   length (rows three_rows_cleaned) = 2 \<and>
   Date_reported (rows three_rows_cleaned ! 1) = Ts (2025, 1, 4) \<and>
   get New_cases (rows three_rows_cleaned ! 0) = get New_cases (rows three_rows_kept ! 0) \<and>
   get New_cases (rows three_rows_kept ! 0) \<noteq> None"
proof -
  have k: "filter has_core (rows three_rows_converted) = rows three_rows_kept"
    by (simp add: example_defs has_core_def)
  from cleaning_frame [OF cleaning_three_rows] obtain df1 where
    df1: "convert_dates iso_date three_rows = Inr df1"
    and len: "length (rows three_rows_cleaned) = length (filter has_core (rows df1))"
    and row: "\<forall>i<length (rows three_rows_cleaned).
         Date_reported (rows three_rows_cleaned ! i) = Date_reported (filter has_core (rows df1) ! i) \<and>
         (\<forall>c. get c (filter has_core (rows df1) ! i) \<noteq> None \<or> name c \<notin> set (columns three_rows) \<longrightarrow>
              get c (rows three_rows_cleaned ! i) = get c (filter has_core (rows df1) ! i))"
    by blast
  from df1 convert_three_rows have eq: "df1 = three_rows_converted" by simp
  have l2: "length (rows three_rows_cleaned) = 2"
    using len by (simp add: eq k) (simp add: example_defs)
  have v: "get New_cases (rows three_rows_kept ! 0) \<noteq> None"
    by (simp add: example_defs)
  have "Date_reported (rows three_rows_cleaned ! 1) = Date_reported (rows three_rows_kept ! 1)"
    using row l2 by (simp add: eq k)
  then have d: "Date_reported (rows three_rows_cleaned ! 1) = Ts (2025, 1, 4)"
    by (simp add: example_defs)
  have "0 < length (rows three_rows_cleaned)" using l2 by simp
  from row [rule_format, OF this] v
  have "get New_cases (rows three_rows_cleaned ! 0) = get New_cases (rows three_rows_kept ! 0)"
    unfolding eq k by blast
  with cleaning_three_rows convert_three_rows k l2 d v show ?thesis by simp
qed


section \<open>Properties of the analysis\<close>

lemma set_valid: "set (valid xs) = {v. Some v \<in> set xs}"
  by (induction xs rule: valid.induct) auto

lemma valid_all_Some: "\<forall>x\<in>set xs. x \<noteq> None \<Longrightarrow> valid xs = map the xs"
  by (induction xs rule: valid.induct) auto

lemma length_valid_all: "\<forall>x\<in>set xs. x \<noteq> None \<Longrightarrow> length (valid xs) = length xs"
  by (simp add: valid_all_Some)

lemma distinct_group_keys: "distinct (group_keys key rs)"
  by (simp add: group_keys_def)

lemma set_group_keys: "set (group_keys key rs) = {k. \<exists>r\<in>set rs. key r = Some k}"
  by (force simp: group_keys_def set_valid)

lemma sum_list_absent:
  "k0 \<notin> set ks \<Longrightarrow> sum_list (map (\<lambda>k. if k = k0 then (a::rat) else 0) ks) = 0"
  by (induction ks) auto

lemma sum_list_single:
  "distinct ks \<Longrightarrow> k0 \<in> set ks \<Longrightarrow>
   sum_list (map (\<lambda>k. if k = k0 then (a::rat) else 0) ks) = a"
  by (induction ks) (auto simp: sum_list_absent)

lemma sum_groups:
  fixes f :: "row \<Rightarrow> rat"
  assumes "distinct ks" and "\<forall>r\<in>set rs. \<exists>k\<in>set ks. key r = Some k"
  shows "sum_list (map (\<lambda>k. sum_list (map f (filter (\<lambda>r. key r = Some k) rs))) ks) =
         sum_list (map f rs)"
  using assms(2)
proof (induction rs)
  case Nil
  then show ?case by simp
next
  case (Cons r rs)
  then obtain k0 where k0: "k0 \<in> set ks" "key r = Some k0" by auto
  have "sum_list (map (\<lambda>k. sum_list (map f (filter (\<lambda>r. key r = Some k) (r # rs)))) ks) =
        sum_list (map (\<lambda>k. (if k = k0 then f r else 0) +
                          sum_list (map f (filter (\<lambda>r. key r = Some k) rs))) ks)"
    using k0 by (intro arg_cong [where f = sum_list] map_cong) auto
  also have "\<dots> = sum_list (map (\<lambda>k. if k = k0 then f r else 0) ks) +
        sum_list (map (\<lambda>k. sum_list (map f (filter (\<lambda>r. key r = Some k) rs))) ks)"
    by (simp add: sum_list_addf)
  also have "\<dots> = f r + sum_list (map f rs)"
    using Cons k0 assms(1) by (simp add: sum_list_single)
  finally show ?case by simp
qed


lemma mean_all_valid:
  assumes "\<forall>r\<in>set g. get c r \<noteq> None" and "g \<noteq> []"
  shows "mean (column c g) = Some (sum_list (map (\<lambda>r. the (get c r)) g) / of_nat (length g))"
proof -
  have "valid (column c g) = map (\<lambda>r. the (get c r)) g"
    using assms(1) by (simp add: column_def valid_all_Some comp_def)
  then show ?thesis using assms(2) by (simp add: mean_def)
qed

lemma weighted_sum_groups:
  assumes "\<forall>k\<in>set ks. G k \<noteq> [] \<and> (\<forall>r\<in>set (G k). get c r \<noteq> None)"
  shows "weighted_sum (map (\<lambda>k. (mean (column c (G k)), length (G k))) ks) =
         Some (sum_list (map (\<lambda>k. sum_list (map (\<lambda>r. the (get c r)) (G k))) ks))"
  using assms
proof (induction ks)
  case Nil
  then show ?case by simp
next
  case (Cons k ks)
  then have "G k \<noteq> []" "\<forall>r\<in>set (G k). get c r \<noteq> None" by simp_all
  then have "mean (column c (G k)) =
      Some (sum_list (map (\<lambda>r. the (get c r)) (G k)) / of_nat (length (G k)))"
    by (simp add: mean_all_valid)
  with Cons \<open>G k \<noteq> []\<close> show ?case by simp
qed

text \<open>
  Claim C8, as the code has it. For every filtered table in which each row has a WHO
  region and a count of new cases (as every row has after cleaning, when the column is
  there): the sum over the regions of the region's mean of new cases multiplied by the
  region's row count, divided by the total row count, is the mean of new cases over the
  whole table. On the empty table both sides are NaN.
\<close>

theorem region_weighted_mean:
  assumes "\<forall>r\<in>set rs. WHO_region r \<noteq> None \<and> get New_cases r \<noteq> None"
  shows "weighted_mean (region_weights rs) (length rs) = mean (column New_cases rs)"
proof (cases "rs = []")
  case True
  then show ?thesis by (simp add: weighted_mean_def mean_def column_def)
next
  case False
  let ?ks = "group_keys WHO_region rs"
  let ?G = "\<lambda>k. filter (\<lambda>r. WHO_region r = Some k) rs"
  let ?f = "\<lambda>r. the (get New_cases r)"
  have groups: "\<forall>k\<in>set ?ks. ?G k \<noteq> [] \<and> (\<forall>r\<in>set (?G k). get New_cases r \<noteq> None)"
    using assms by (auto simp: set_group_keys filter_empty_conv)
  have cover: "\<forall>r\<in>set rs. \<exists>k\<in>set ?ks. WHO_region r = Some k"
    using assms by (fastforce simp: set_group_keys)
  have "region_weights rs = map (\<lambda>k. (mean (column New_cases (?G k)), length (?G k))) ?ks"
    by (simp add: region_weights_def groupby_def comp_def)
  then have "weighted_sum (region_weights rs) =
      Some (sum_list (map (\<lambda>k. sum_list (map ?f (?G k))) ?ks))"
    using weighted_sum_groups [OF groups] by simp
  also have "\<dots> = Some (sum_list (map ?f rs))"
    using sum_groups [OF distinct_group_keys cover] by simp
  finally have "weighted_mean (region_weights rs) (length rs) =
      Some (sum_list (map ?f rs) / of_nat (length rs))"
    using False by (simp add: weighted_mean_def)
  moreover have "mean (column New_cases rs) = Some (sum_list (map ?f rs) / of_nat (length rs))"
    using assms False by (simp add: mean_all_valid)
  ultimately show ?thesis by simp
qed

lemma weights_two_regions: "region_weights (rows two_regions) = [(Some 35, 2), (Some 20, 1)]"
  by (simp add: region_weights_def groupby_def group_keys_def two_regions_def entry_def
      mean_def column_def)

theorem region_weighted_mean_witness:
  "map WHO_region (rows two_regions) = [Some ''AFRO'', Some ''EURO'', Some ''AFRO''] \<and>
   map (get New_cases) (rows two_regions) = [Some 10, Some 20, Some 60] \<and>
   region_weights (rows two_regions) = [(Some 35, 2), (Some 20, 1)] \<and>
   mean (column New_cases (rows two_regions)) = Some 30 \<and>
   weighted_mean (region_weights (rows two_regions)) (length (rows two_regions)) =
     mean (column New_cases (rows two_regions))"
proof -
  have h: "\<forall>r\<in>set (rows two_regions). WHO_region r \<noteq> None \<and> get New_cases r \<noteq> None"
    by (simp add: two_regions_def entry_def)
  have m: "mean (column New_cases (rows two_regions)) = Some 30"
    by (simp add: two_regions_def entry_def mean_def column_def)
  have r: "map WHO_region (rows two_regions) = [Some ''AFRO'', Some ''EURO'', Some ''AFRO'']"
    and n: "map (get New_cases) (rows two_regions) = [Some 10, Some 20, Some 60]"
    by (simp_all add: two_regions_def entry_def)
  show ?thesis
    using region_weighted_mean [OF h] m weights_two_regions r n by simp
qed

text \<open>
  The claim as the specification states it fails on a table in which a row has no WHO
  region: \<^verbatim>\<open>groupby\<close> leaves the row out of every group, and the ungrouped mean does
  not.
\<close>

theorem region_weighted_mean_no_region:
  "region_weights (rows no_region) = [(Some 10, 1)] \<and>
   length (rows no_region) = 2 \<and>
   weighted_mean (region_weights (rows no_region)) (length (rows no_region)) = Some 5 \<and>
   mean (column New_cases (rows no_region)) = Some 15"
  by (simp add: region_weights_def groupby_def group_keys_def no_region_def entry_def
      mean_def column_def weighted_mean_def)

lemma desc_key_precedes: "desc_key a \<le> desc_key b \<Longrightarrow> precedes (snd a) (snd b)"
  by (cases a; cases b; cases "snd a"; cases "snd b") auto

lemma sorted_sort_values_desc:
  "sorted_wrt (\<lambda>a b. precedes (snd a) (snd b)) (sort_values_desc xs)"
proof -
  have "sorted (map desc_key (sort_key desc_key xs))" by (rule sorted_sort_key)
  then have "sorted_wrt (\<lambda>a b. desc_key a \<le> desc_key b) (sort_key desc_key xs)"
    by (simp add: sorted_map)
  then show ?thesis
    unfolding sort_values_desc_def
    by (rule sorted_wrt_mono_rel [rotated]) (simp add: desc_key_precedes)
qed

lemma mset_sort_values_desc: "mset (sort_values_desc xs) = mset xs"
  by (simp add: sort_values_desc_def)

lemma group_mean_groupby:
  "group_mean c (groupby key rs) =
     map (\<lambda>k. (k, mean (column c (filter (\<lambda>r. key r = Some k) rs)))) (group_keys key rs)"
  by (simp add: group_mean_def groupby_def comp_def)

lemma sorted_wrt_take_drop:
  "sorted_wrt P xs \<Longrightarrow> a \<in> set (take n xs) \<Longrightarrow> b \<in> set (drop n xs) \<Longrightarrow> P a b"
  by (metis append_take_drop_id sorted_wrt_append)

lemma length_valid_map: "length (valid (map f g)) = length (filter (\<lambda>r. f r \<noteq> None) g)"
  by (induction g) (auto split: option.splits)

lemma sum_list_valid_map:
  fixes f :: "'a \<Rightarrow> rat option"
  shows "sum_list (valid (map f g)) = (\<Sum>r\<leftarrow>g. case f r of None \<Rightarrow> 0 | Some v \<Rightarrow> v)"
  by (induction g) (auto split: option.splits)

lemma mean_average: "mean (column c g) = average c g"
proof -
  have "valid (column c g) = [] \<longleftrightarrow> cells_with_value c g = 0"
    using length_valid_map [of "get c" g]
    by (simp add: column_def cells_with_value_def del: length_0_conv flip: length_0_conv)
  then show ?thesis
    by (simp add: mean_def average_def Let_def)
       (simp add: column_def cells_with_value_def sum_of_values_def length_valid_map
          sum_list_valid_map)
qed

text \<open>
  Claim C7. The per-country table of line 74 has at most ten entries, one for a country;
  each entry is the mean of the cumulative deaths of the rows of its country (the sum of
  the cells that hold a value over their number); the entries stand in descending order
  of that mean (NaN last); and they are the first ten of that order: no group left out
  has a larger mean than a group kept.
\<close>

theorem country_deaths_top10:
  assumes "country_deaths d = Inr top10"
  shows "length top10 \<le> 10 \<and>
     sorted_wrt (\<lambda>a b. precedes (snd a) (snd b)) top10 \<and>
     distinct (map fst top10) \<and>
     (\<forall>(k, m)\<in>set top10.
        filter (\<lambda>r. Country r = Some k) (rows d) \<noteq> [] \<and>
        m = average Cumulative_deaths (filter (\<lambda>r. Country r = Some k) (rows d))) \<and>
     (\<exists>rest. mset (top10 @ rest) = mset (group_mean Cumulative_deaths (groupby Country (rows d))) \<and>
        (length top10 < 10 \<longrightarrow> rest = []) \<and>
        (\<forall>a\<in>set top10. \<forall>b\<in>set rest. precedes (snd a) (snd b)))"
proof -
  let ?means = "group_mean Cumulative_deaths (groupby Country (rows d))"
  let ?full = "sort_values_desc ?means"
  have top: "top10 = take 10 ?full"
    using assms by (auto simp: country_deaths_def split: if_splits)
  have sorted: "sorted_wrt (\<lambda>a b. precedes (snd a) (snd b)) ?full"
    by (rule sorted_sort_values_desc)
  have "distinct (map fst ?means)"
    by (simp add: group_mean_groupby comp_def distinct_group_keys)
  moreover have "mset (map fst ?full) = mset (map fst ?means)"
    by (simp add: mset_sort_values_desc)
  ultimately have "distinct (map fst ?full)"
    by (metis mset_eq_imp_distinct_iff)
  then have d: "distinct (map fst top10)"
    by (simp add: top take_map [symmetric])
  have "set top10 \<subseteq> set ?means"
    using set_take_subset [of 10 ?full] mset_sort_values_desc [of ?means]
    by (metis top mset_eq_setD)
  then have entries: "\<forall>(k, m)\<in>set top10.
        filter (\<lambda>r. Country r = Some k) (rows d) \<noteq> [] \<and>
        m = average Cumulative_deaths (filter (\<lambda>r. Country r = Some k) (rows d))"
    by (auto simp: group_mean_groupby mean_average set_group_keys filter_empty_conv)
  have "mset (top10 @ drop 10 ?full) = mset ?means"
    by (simp add: top mset_sort_values_desc)
  moreover have "length top10 < 10 \<longrightarrow> drop 10 ?full = []"
    by (auto simp: top)
  moreover have "\<forall>a\<in>set top10. \<forall>b\<in>set (drop 10 ?full). precedes (snd a) (snd b)"
    using sorted_wrt_take_drop [OF sorted] by (simp add: top)
  ultimately have rest: "\<exists>rest. mset (top10 @ rest) = mset ?means \<and>
        (length top10 < 10 \<longrightarrow> rest = []) \<and>
        (\<forall>a\<in>set top10. \<forall>b\<in>set rest. precedes (snd a) (snd b))"
    by blast
  have "length top10 \<le> 10" by (simp add: top)
  moreover have "sorted_wrt (\<lambda>a b. precedes (snd a) (snd b)) top10"
    unfolding top using sorted by (rule sorted_wrt_take)
  ultimately show ?thesis using d entries rest by blast
qed

lemma country_deaths_eleven: "country_deaths eleven_countries = Inr ten_countries"
  by (simp add: country_deaths_def sort_values_desc_def group_mean_def groupby_def group_keys_def
      eleven_countries_def ten_countries_def entry_def mean_def column_def who_columns_def)

lemma kenya_rows:
  "map (get Cumulative_deaths) (filter (\<lambda>r. Country r = Some ''Kenya'') (rows eleven_countries)) =
     [Some 9, Some 13]"
  by (simp add: eleven_countries_def entry_def)

lemma japan_rows:
  "map (get Cumulative_deaths) (filter (\<lambda>r. Country r = Some ''Japan'') (rows eleven_countries)) =
     [Some 10, None]"
  by (simp add: eleven_countries_def entry_def)

theorem country_deaths_top10_witness:
  "country_deaths eleven_countries = Inr ten_countries \<and>
   length (group_keys Country (rows eleven_countries)) = 11 \<and>
   length ten_countries \<le> 10 \<and>
   sorted_wrt (\<lambda>a b. precedes (snd a) (snd b)) ten_countries \<and>
   distinct (map fst ten_countries) \<and>
   (''Kenya'', Some 11) \<in> set ten_countries \<and>
   map (get Cumulative_deaths) (filter (\<lambda>r. Country r = Some ''Kenya'') (rows eleven_countries)) =
     [Some 9, Some 13] \<and>
   average Cumulative_deaths (filter (\<lambda>r. Country r = Some ''Kenya'') (rows eleven_countries)) =
     Some 11 \<and>
   (''Japan'', Some 10) \<in> set ten_countries \<and>
   map (get Cumulative_deaths) (filter (\<lambda>r. Country r = Some ''Japan'') (rows eleven_countries)) =
     [Some 10, None] \<and>
   average Cumulative_deaths (filter (\<lambda>r. Country r = Some ''Japan'') (rows eleven_countries)) =
     Some 10"
proof -
  have n: "length (group_keys Country (rows eleven_countries)) = 11"
    by (simp add: group_keys_def eleven_countries_def entry_def)
  have k: "(''Kenya'', Some 11) \<in> set ten_countries"
    and j: "(''Japan'', Some 10) \<in> set ten_countries"
    by (simp_all add: ten_countries_def)
  from country_deaths_top10 [OF country_deaths_eleven]
  have *: "length ten_countries \<le> 10"
    "sorted_wrt (\<lambda>a b. precedes (snd a) (snd b)) ten_countries"
    "distinct (map fst ten_countries)"
    and all: "\<forall>(k, m)\<in>set ten_countries.
        filter (\<lambda>r. Country r = Some k) (rows eleven_countries) \<noteq> [] \<and>
        m = average Cumulative_deaths (filter (\<lambda>r. Country r = Some k) (rows eleven_countries))"
    by blast+
  from all k have ak: "average Cumulative_deaths
      (filter (\<lambda>r. Country r = Some ''Kenya'') (rows eleven_countries)) = Some 11"
    by fastforce
  from all j have aj: "average Cumulative_deaths
      (filter (\<lambda>r. Country r = Some ''Japan'') (rows eleven_countries)) = Some 10"
    by fastforce
  show ?thesis
    using country_deaths_eleven n * k j ak aj kenya_rows japan_rows by blast
qed

lemma recent_idem: "recent d = Inr recent_df \<Longrightarrow> recent recent_df = Inr recent_df"
  by (auto simp: recent_def split: if_splits)

text \<open>
  On any table, the rows that the statistics and the grouped aggregates are computed
  from are the rows that pass the test of line 63, and the analysis of a table is the
  analysis of these rows alone.
\<close>

lemma recent_rows_pass_test:
  assumes "recent d = Inr recent_df" and "r \<in> set (rows recent_df)"
  shows "on_or_after (Date_reported r) \<and> Date_reported r \<noteq> NaT \<and>
         analysis d = analysis recent_df"
proof -
  have "on_or_after (Date_reported r)"
    using assms by (auto simp: recent_def split: if_splits)
  moreover from this have "Date_reported r \<noteq> NaT" by auto
  moreover have "analysis d = analysis recent_df"
    by (simp add: analysis_def assms(1) recent_idem [OF assms(1)])
  ultimately show ?thesis by blast
qed

lemma recent_two_years: "recent two_years = Inr year_2025"
  by (simp add: recent_def two_years_def year_2025_def who_columns_def report_def cutoff_def)

lemma left_by_cleaning_not_Raw:
  assumes "convert_dates parse df0 = Inr d1" and "cleaning parse df0 = (d, e)"
    and "r \<in> set (rows d)"
  shows "Date_reported r \<noteq> Raw s"
proof (cases "dropna d1")
  case (Inl x)
  with assms(1,2) have "d = d1" by (simp add: cleaning_def)
  with assms(1,3) show ?thesis by (simp add: converted_not_Raw)
next
  case (Inr df2)
  with assms(1,2) have d: "d = fill_numeric df2" by (simp add: cleaning_def)
  from assms(3) obtain i where i: "i < length (rows df2)" "r = rows d ! i"
    by (auto simp: d in_set_conv_nth)
  have "rows df2 ! i \<in> set (rows d1)"
    using dropna_Inr [OF Inr] i(1) by (metis filter_is_subset nth_mem subsetD)
  then have "Date_reported (rows df2 ! i) \<noteq> Raw s"
    using assms(1) by (rule converted_not_Raw [rotated])
  then show ?thesis
    using frame_fill_numeric [OF i(1)] by (simp add: i(2) d)
qed

text \<open>
  Claim C5, as the code has it. Whenever line 40 has converted the date column (\<open>d\<close>
  is the table the cleaning stage then leaves, completed or ended by line 42), every row
  that the statistics and the grouped aggregates are computed from has a report date on
  or after 1 January 2025, and the analysis of the table is the analysis of these rows
  alone.
\<close>

theorem analysis_rows_dated:
  assumes "convert_dates parse df0 = Inr d1" and "cleaning parse df0 = (d, e)"
    and "recent d = Inr recent_df" and "r \<in> set (rows recent_df)"
  shows "(\<exists>t. Date_reported r = Ts t \<and> cutoff \<le> t) \<and> analysis d = analysis recent_df"
proof -
  have r: "r \<in> set (rows d)" and test: "on_or_after (Date_reported r)"
    using assms(3,4) by (auto simp: recent_def split: if_splits)
  have "\<And>s. Date_reported r \<noteq> Raw s"
    using left_by_cleaning_not_Raw [OF assms(1,2) r] .
  with test have "\<exists>t. Date_reported r = Ts t \<and> cutoff \<le> t"
    by (cases "Date_reported r") auto
  moreover have "analysis d = analysis recent_df"
    by (simp add: analysis_def assms(3) recent_idem [OF assms(3)])
  ultimately show ?thesis by blast
qed

lemma convert_two_years: "convert_dates iso_date two_years_raw = Inr two_years"
  by (simp add: cleaning_defs two_years_raw_def two_years_def example_defs)

lemma cleaning_two_years: "cleaning iso_date two_years_raw = (two_years, None)"
  by (simp add: cleaning_def convert_two_years)
     (simp add: cleaning_defs two_years_def example_defs)

theorem analysis_rows_dated_witness:
  "convert_dates iso_date two_years_raw = Inr two_years \<and>
   cleaning iso_date two_years_raw = (two_years, None) \<and>
   recent two_years = Inr year_2025 \<and>
   map Date_reported (rows two_years) = [Ts (2024, 12, 31), Ts (2025, 1, 1)] \<and>
   rows year_2025 ! 0 \<in> set (rows year_2025) \<and>
   Date_reported (rows year_2025 ! 0) = Ts (2025, 1, 1) \<and>
   cutoff \<le> (2025, 1, 1) \<and>
   analysis two_years = analysis year_2025"
proof -
  have h: "rows year_2025 ! 0 \<in> set (rows year_2025)"
    and d: "Date_reported (rows year_2025 ! 0) = Ts (2025, 1, 1)"
    and m: "map Date_reported (rows two_years) = [Ts (2024, 12, 31), Ts (2025, 1, 1)]"
    by (simp_all add: year_2025_def two_years_def report_def)
  show ?thesis
    using analysis_rows_dated [OF convert_two_years cleaning_two_years recent_two_years h]
      convert_two_years cleaning_two_years recent_two_years h d m by simp
qed

text \<open>
  The claim as the specification states it fails when line 40 raises: the handler of line
  57 reports it, \<^verbatim>\<open>df\<close> stays bound to the table as read, and line 63 compares
  text with text. A row without a date and a row of 31 December 2024 pass the test and
  are counted in the statistics.
\<close>

lemma cleaning_bad_dates: "cleaning iso_date bad_dates = (bad_dates, Some ValueError)"
  by (simp add: cleaning_def cleaning_defs bad_dates_def example_defs)

lemma recent_bad_dates: "recent bad_dates = Inr bad_dates"
  by (simp add: recent_def bad_dates_def who_columns_def report_def)

theorem text_dates_enter_statistics:
  "cleaning iso_date bad_dates = (bad_dates, Some ValueError) \<and>
   var_df (task1 iso_date (Inr bad_dates) (initial [])) = Some bad_dates \<and>
   raised (task1 iso_date (Inr bad_dates) (initial [])) = None \<and>
   recent bad_dates = Inr bad_dates \<and>
   map Date_reported (rows bad_dates) = [Raw ''not-a-date'', Raw ''31/12/2024''] \<and>
   fst (analysis bad_dates) ! 3 = Region_table [(''AFRO'', Some 5, 10)] \<and>
   snd (analysis bad_dates) = None"
proof -
  have t: "var_df (task1 iso_date (Inr bad_dates) (initial [])) = Some bad_dates \<and>
   raised (task1 iso_date (Inr bad_dates) (initial [])) = None"
    by (simp add: task1_def task1_body_def except_task1_def initial_def print_def Let_def
        cleaning_bad_dates)
  have m: "map Date_reported (rows bad_dates) = [Raw ''not-a-date'', Raw ''31/12/2024'']"
    by (simp add: bad_dates_def report_def)
  have g: "group_means bad_dates = Inr [(''AFRO'', Some 5, 10)]"
    by (simp add: group_means_def group_mean_sum_def groupby_def group_keys_def mean_def
        total_def column_def bad_dates_def report_def who_columns_def round2_def
        round_half_even_def)
  have c: "\<exists>x. country_deaths bad_dates = Inr x"
    by (simp add: country_deaths_def bad_dates_def who_columns_def)
  have s: "\<exists>x. describe bad_dates = Inr x"
    by (simp add: describe_def bad_dates_def who_columns_def)
  have a: "fst (analysis bad_dates) ! 3 = Region_table [(''AFRO'', Some 5, 10)] \<and>
   snd (analysis bad_dates) = None"
    using c s by (auto simp: analysis_def recent_bad_dates g)
  show ?thesis
    using cleaning_bad_dates recent_bad_dates t m a by simp
qed

text \<open>
  Claim C9. What the analysis prints, and how it ends, is a function of the table that
  \<^verbatim>\<open>df\<close> is bound to: two runs of Task 2 from states that agree on the table differ
  in nothing that Task 2 adds, whatever the state of the random generator and whatever
  was printed or saved before.
\<close>

theorem analysis_deterministic:
  assumes "var_df s = var_df s'" and "raised s = None" and "raised s' = None"
  shows "drop (length (out s)) (out (task2 s)) = drop (length (out s')) (out (task2 s')) \<and>
         raised (task2 s) = raised (task2 s') \<and> var_df (task2 s) = var_df (task2 s')"
  using assms
  by (auto simp: task2_def task2_body_def except_Exception_def print_def
      split: option.splits prod.splits)

theorem analysis_deterministic_witness:
  "var_df run_a = var_df run_b \<and> raised run_a = None \<and> raised run_b = None \<and>
   rng run_a \<noteq> rng run_b \<and>
   drop (length (out run_a)) (out (task2 run_a)) = drop (length (out run_b)) (out (task2 run_b)) \<and>
   raised (task2 run_a) = raised (task2 run_b) \<and> var_df (task2 run_a) = var_df (task2 run_b)"
proof -
  have h: "var_df run_a = var_df run_b" "raised run_a = None" "raised run_b = None"
    and g: "rng run_a \<noteq> rng run_b"
    by (simp_all add: run_a_def run_b_def)
  show ?thesis
    using analysis_deterministic [OF h] h g by simp
qed

text \<open>The sample of the scatter plot is not such a function: it follows the generator.\<close>

lemma sample_follows_rng:
  "fst (sample 1 [a, b] [0]) = [a] \<and> fst (sample 1 [a, b] [1]) = [b]"
  by (simp add: numeral_eq_Suc)

text \<open>
  Claim C4, as the code has it. When lines 22 to 24 raise a
  \<^verbatim>\<open>RequestException\<close>, the first handler prints its message and \<^verbatim>\<open>df\<close> stays
  unbound; Task 2 and Task 3 each raise \<^verbatim>\<open>NameError\<close>, which is an
  \<^verbatim>\<open>Exception\<close>: the guard of each task catches it and prints its message. No
  image is written, no exception is left, and the run goes on to the final
  observations.
\<close>

theorem acquisition_failure:
  assumes "is_RequestException e"
  shows "script parse (Inl e) g =
     \<lparr>var_df = None,
      out = [Download_failed e, Analysis_error (NameError ''df''),
             Visualization_error (NameError ''df''), Observations],
      files = [], rng = g, raised = None\<rparr>"
  using assms
  by (simp add: script_def task1_def task1_body_def except_task1_def task2_def task2_body_def
      task3_def task3_body_def except_Exception_def final_observations_def initial_def print_def)

theorem acquisition_failure_witness:
  "is_RequestException HTTPError \<and>
   script iso_date (Inl HTTPError) [] =
     \<lparr>var_df = None,
      out = [Download_failed HTTPError, Analysis_error (NameError ''df''),
             Visualization_error (NameError ''df''), Observations],
      files = [], rng = [], raised = None\<rparr>"
  using acquisition_failure [of HTTPError iso_date "[]"] by simp

text \<open>
  The claim as the specification states it fails: after a connection error the two
  secondary errors are caught and reported, and the run ends with no exception raised.
\<close>

theorem secondary_errors_are_caught:
  "raised (script iso_date (Inl ConnectionError) []) = None \<and>
   out (script iso_date (Inl ConnectionError) []) =
     [Download_failed ConnectionError, Analysis_error (NameError ''df''),
      Visualization_error (NameError ''df''), Observations] \<and>
   is_Exception (NameError ''df'')"
  by (simp add: script_def task1_def task1_body_def except_task1_def task2_def task2_body_def
      task3_def task3_body_def except_Exception_def final_observations_def initial_def print_def)

text \<open>An exception that is no \<^verbatim>\<open>Exception\<close> is caught by no guard and ends the run.\<close>

lemma interrupt_ends_run:
  "script parse (Inl KeyboardInterrupt) g = (initial g)\<lparr>raised := Some KeyboardInterrupt\<rparr>"
  by (simp add: script_def task1_def task1_body_def except_task1_def task2_def
      task3_def final_observations_def initial_def)

section \<open>Properties of the rendering\<close>

lemma recent_three: "recent three_rows_cleaned = Inr three_rows_cleaned"
  by (simp add: recent_def three_rows_cleaned_def who_columns_def report_def cutoff_def)

lemma viz_three: "visualization three_rows_cleaned g =
   ([(''global_cases_line.png'', rows three_rows_cleaned),
    (''region_cases_bar.png'', rows three_rows_cleaned),
    (''deaths_histogram.png'', rows three_rows_cleaned)], g, [], Some ValueError)"
  by (simp add: visualization_def recent_three) (simp add: three_rows_cleaned_def who_columns_def)


lemma analysis_raises_Exception: "analysis d = (ls, Some e) \<Longrightarrow> is_Exception e"
  by (auto simp: analysis_def recent_def describe_def group_means_def country_deaths_def Let_def
      split: sum.splits if_splits)

lemma visualization_raises_Exception: "visualization d g = (fs, g', ls, Some e) \<Longrightarrow> is_Exception e"
  by (auto simp: visualization_def recent_def Let_def split: sum.splits if_splits prod.splits)

lemma task1_cleaned:
  assumes "cleaning parse raw = (d, None)"
  shows "var_df (task1 parse (Inr raw) (initial g)) = Some d \<and>
         raised (task1 parse (Inr raw) (initial g)) = None \<and>
         files (task1 parse (Inr raw) (initial g)) = [] \<and>
         rng (task1 parse (Inr raw) (initial g)) = g"
  using assms
  by (simp add: task1_def task1_body_def except_task1_def initial_def print_def Let_def)

lemma task2_frame:
  assumes "raised s = None"
  shows "raised (task2 s) = None \<and> var_df (task2 s) = var_df s \<and>
         files (task2 s) = files s \<and> rng (task2 s) = rng s"
proof (cases "var_df s")
  case None
  with assms show ?thesis
    by (simp add: task2_def task2_body_def except_Exception_def print_def)
next
  case (Some d)
  obtain ls e where a: "analysis d = (ls, e)" by (cases "analysis d")
  show ?thesis
  proof (cases e)
    case None
    with assms Some a show ?thesis
      by (simp add: task2_def task2_body_def except_Exception_def print_def)
  next
    case (Some x)
    with a have "is_Exception x" by (auto dest: analysis_raises_Exception)
    with assms \<open>var_df s = Some d\<close> a Some show ?thesis
      by (simp add: task2_def task2_body_def except_Exception_def print_def)
  qed
qed

lemma task3_files:
  assumes "raised s = None" and "var_df s = Some d"
    and "visualization d (rng s) = (fs, g', ls, e)"
  shows "files (task3 s) = files s @ fs \<and> raised (task3 s) = None \<and>
         out (task3 s) = out s @ ls @ (case e of None \<Rightarrow> [] | Some x \<Rightarrow> [Visualization_error x])"
proof (cases e)
  case None
  with assms show ?thesis
    by (simp add: task3_def task3_body_def except_Exception_def print_def)
next
  case (Some x)
  with assms(3) have "is_Exception x" by (auto dest: visualization_raises_Exception)
  with assms Some show ?thesis
    by (simp add: task3_def task3_body_def except_Exception_def print_def)
qed

lemma script_files:
  assumes "cleaning parse raw = (d, None)" and "visualization d g = (fs, g', ls, e)"
  shows "files (script parse (Inr raw) g) = fs \<and> raised (script parse (Inr raw) g) = None"
proof -
  let ?s1 = "task1 parse (Inr raw) (initial g)"
  let ?s2 = "task2 ?s1"
  have s1: "var_df ?s1 = Some d" "raised ?s1 = None" "files ?s1 = []" "rng ?s1 = g"
    using task1_cleaned [OF assms(1)] by simp_all
  have s2: "var_df ?s2 = Some d" "raised ?s2 = None" "files ?s2 = []" "rng ?s2 = g"
    using task2_frame [OF s1(2)] s1 by simp_all
  have "files (task3 ?s2) = fs \<and> raised (task3 ?s2) = None"
    using task3_files [OF s2(2) s2(1)] assms(2) s2 by simp
  then show ?thesis
    by (simp add: script_def final_observations_def print_def)
qed

lemma small_window_no_scatter:
  assumes "cleaning parse raw = (d, None)" and "recent d = Inr viz_df"
    and "length (rows viz_df) < 1000"
  shows "''cases_deaths_scatter.png'' \<notin> fst ` set (files (script parse (Inr raw) g))"
proof -
  obtain fs g' ls e where v: "visualization d g = (fs, g', ls, e)"
    by (cases "visualization d g") auto
  then have "''cases_deaths_scatter.png'' \<notin> fst ` set fs"
    using assms(2,3) by (auto simp: visualization_def Let_def split: if_splits)
  with script_files [OF assms(1) v] show ?thesis by simp
qed

lemma large_window_four_files:
  assumes "cleaning parse raw = (d, None)" and "recent d = Inr viz_df"
    and "1000 \<le> length (rows viz_df)"
    and "name New_cases \<in> set (columns d)" and "''WHO_region'' \<in> set (columns d)"
    and "name New_deaths \<in> set (columns d)"
  shows "map fst (files (script parse (Inr raw) g)) =
     [''global_cases_line.png'', ''region_cases_bar.png'', ''deaths_histogram.png'',
      ''cases_deaths_scatter.png'']"
proof -
  obtain fs g' ls e where v: "visualization d g = (fs, g', ls, e)"
    by (cases "visualization d g") auto
  have "columns viz_df = columns d"
    using assms(2) by (auto simp: recent_def split: if_splits)
  with v assms(2-) have "map fst fs =
     [''global_cases_line.png'', ''region_cases_bar.png'', ''deaths_histogram.png'',
      ''cases_deaths_scatter.png'']"
    by (auto simp: visualization_def Let_def split: prod.splits)
  with script_files [OF assms(1) v] show ?thesis by simp
qed

text \<open>
  Claim C3 at a table whose 2025 window has two rows: \<^verbatim>\<open>sample(1000)\<close> raises, the
  guard of Task 3 reports it, and the run has written three images; the scatter plot is
  not among them.
\<close>

theorem small_window_three_files:
  "map fst (files (script iso_date (Inr three_rows) g)) =
     [''global_cases_line.png'', ''region_cases_bar.png'', ''deaths_histogram.png'']"
  using script_files [OF cleaning_three_rows viz_three] by simp


end
